theory Spec2Isabelle
  imports Complex_Main "HOL-Library.Log_Nat"
begin

section \<open>Mission execution and telemetry capture (CargarEjecutar.py)\<close>

text \<open>
  A shallow embedding of \<^verbatim>\<open>CargarEjecutar.py\<close>: the mission loader at the start of
  \<^verbatim>\<open>run\<close>, the retrying take-off of \<^verbatim>\<open>attempt_takeoff\<close>, and the two telemetry
  loops \<^verbatim>\<open>log_gps\<close> and \<^verbatim>\<open>log_odometry\<close> that share the module's global variables.

  Conventions of the embedding.
  \<^item> A Python float is the \<^typ>\<open>real\<close> number it stands for. The subtractions of the
    landing test are those of binary64 arithmetic: the exact difference rounded to the
    nearest double (\<open>fl\<close>), and the literals 0.01 and 0.5 are the doubles nearest to
    them. \<^verbatim>\<open>abs\<close> and the comparisons are exact on doubles. Time stamps are divided
    exactly and \<^verbatim>\<open>round\<close> is rounding half to even on the exact value.
  \<^item> A global or local that holds \<^verbatim>\<open>None\<close> or a number is a \<^typ>\<open>real option\<close>.
  \<^item> A raised exception is a value of \<open>py_error\<close>.
  \<^item> The two asyncio tasks run on one thread and neither loop body awaits anything, so
    every loop iteration is atomic; a run of the two tasks is the sequence of what the
    two telemetry streams deliver (a sample, or the end of the stream) in the order in
    which the event loop delivers it.
\<close>

subsection \<open>Exceptions and rounding\<close>

datatype py_error =
    FileNotFoundError
  | JSONDecodeError
  | KeyError
  | IndexError
  | TypeError
  | RuntimeError

text \<open>\<^verbatim>\<open>round(x)\<close> to a whole number, ties to the even neighbour.\<close>

definition round_half_even :: "real \<Rightarrow> int" where
  "round_half_even x =
     (let f = \<lfloor>x\<rfloor>; d = x - of_int f
      in if d < 1 / 2 then f
         else if 1 / 2 < d then f + 1
         else if even f then f else f + 1)"

text \<open>\<^verbatim>\<open>round(x, n)\<close>: the result is again a float.\<close>

definition py_round :: "real \<Rightarrow> nat \<Rightarrow> real" where
  "py_round x n = of_int (round_half_even (x * 10 ^ n)) / 10 ^ n"

text \<open>
  Rounding to the nearest binary64 number, ties to the even significand. In units of
  \<open>2 ^ -1074\<close>, the smallest positive double, a double is an integer of at most 53 bits
  times a power of two; \<open>ulp_exponent\<close> is that power for the binade of \<open>x\<close>. The
  exponent is not bounded above: what overflows to infinity in Python is here a number
  of at least \<open>2 ^ 1024\<close>, which fails the comparisons of the landing test just as
  infinity does.
\<close>

definition ulp_exponent :: "real \<Rightarrow> nat" where
  "ulp_exponent x = nat (bitlen \<lfloor>\<bar>x\<bar> * 2 ^ 1074\<rfloor> - 53)"

definition fl :: "real \<Rightarrow> real" where
  "fl x =
     of_int (round_half_even (x * 2 ^ 1074 / 2 ^ ulp_exponent x)) * 2 ^ ulp_exponent x /
       2 ^ 1074"

subsection \<open>Module globals\<close>

text \<open>
  \<^verbatim>\<open>current_lat, current_lon, current_alt, last_lat, last_lon, last_alt, inic_alt\<close>,
  all \<^verbatim>\<open>None\<close> when the module is loaded.
\<close>

record globals =
  current_lat :: "real option"
  current_lon :: "real option"
  current_alt :: "real option"
  last_lat :: "real option"
  last_lon :: "real option"
  last_alt :: "real option"
  inic_alt :: "real option"

definition module_globals :: globals where
  "module_globals =
     \<lparr>current_lat = None, current_lon = None, current_alt = None,
      last_lat = None, last_lon = None, last_alt = None, inic_alt = None\<rparr>"

subsection \<open>Mission loader (the head of \<^verbatim>\<open>run\<close>)\<close>

text \<open>
  A waypoint item \<^verbatim>\<open>{"command": int, "params": [float, ...]}\<close> and the
  \<^verbatim>\<open>"mission"\<close> object of the plan file. A key that may be missing is an option:
  \<^verbatim>\<open>mission_json["mission"]["items"]\<close> raises \<^verbatim>\<open>KeyError\<close> on a missing key, whereas
  \<^verbatim>\<open>.get("plannedHomePosition", None)\<close> does not.
\<close>

record mission_item =
  command :: int
  params :: "real list"

record mission_obj =
  items :: "mission_item list option"
  plannedHomePosition :: "real list option"

text \<open>
  What \<^verbatim>\<open>open(mission_path)\<close> and \<^verbatim>\<open>json.load\<close> find: no file, a file that is not
  JSON, or a JSON document with or without its \<^verbatim>\<open>"mission"\<close> key.
\<close>

datatype mission_file =
    NoSuchFile
  | NotJson
  | Json "mission_obj option"

text \<open>Python list indexing with a non-negative index.\<close>

definition getitem :: "'a list \<Rightarrow> nat \<Rightarrow> py_error + 'a" where
  "getitem xs i = (if i < length xs then Inr (xs ! i) else Inl IndexError)"

text \<open>Sequencing of a step that may raise: the exception ends the computation.\<close>

definition raising :: "py_error + 'a \<Rightarrow> ('a \<Rightarrow> py_error + 'b) \<Rightarrow> py_error + 'b" where
  "raising r k = (case r of Inl e \<Rightarrow> Inl e | Inr v \<Rightarrow> k v)"

text \<open>Lines 40 to 45: open the file, parse it, read the two keys.\<close>

definition read_mission ::
  "mission_file \<Rightarrow> py_error + (mission_item list \<times> real list option)" where
  "read_mission f =
     (case f of
        NoSuchFile \<Rightarrow> Inl FileNotFoundError
      | NotJson \<Rightarrow> Inl JSONDecodeError
      | Json None \<Rightarrow> Inl KeyError
      | Json (Some m) \<Rightarrow>
          (case items m of
             None \<Rightarrow> Inl KeyError
           | Some mission_items \<Rightarrow> Inr (mission_items, plannedHomePosition m)))"

text \<open>
  Lines 47 to 58. \<^verbatim>\<open>last_wp\<close> is \<^verbatim>\<open>mission_items[-1]\<close> or \<^verbatim>\<open>None\<close>; the guard
  \<^verbatim>\<open>if last_wp and planned_home_position\<close> is false for an empty item list, for a
  missing home position and for an empty home list, and then no global is assigned.
  The assignments happen one after the other, so an \<^verbatim>\<open>IndexError\<close> stops them midway;
  the globals assigned before it are lost with the failed run.
\<close>

definition expected_end ::
  "mission_item list \<Rightarrow> real list option \<Rightarrow> globals \<Rightarrow> py_error + globals" where
  "expected_end mission_items planned_home_position g =
     (if mission_items = [] then Inr g
      else
        (let last_wp = last mission_items in
         case planned_home_position of
           None \<Rightarrow> Inr g
         | Some home \<Rightarrow>
             if home = [] then Inr g
             else if command last_wp = 20 then
               raising (getitem home 0) (\<lambda>h0.
               raising (getitem home 1) (\<lambda>h1.
               raising (getitem home 2) (\<lambda>h2.
                 Inr (g\<lparr>last_lat := Some h0, last_lon := Some h1,
                        last_alt := Some h2, inic_alt := Some 0\<rparr>))))
             else
               raising (getitem (params last_wp) 4) (\<lambda>p4.
               raising (getitem (params last_wp) 5) (\<lambda>p5.
               raising (getitem (params last_wp) 6) (\<lambda>p6.
               raising (getitem home 2) (\<lambda>h2.
                 Inr (g\<lparr>last_lat := Some p4, last_lon := Some p5,
                        last_alt := Some p6, inic_alt := Some h2\<rparr>)))))))"

text \<open>The mission loader: read the file, then derive the expected end position.\<close>

definition mission_loader :: "mission_file \<Rightarrow> globals \<Rightarrow> py_error + globals" where
  "mission_loader f g =
     (case read_mission f of
        Inl e \<Rightarrow> Inl e
      | Inr (mission_items, planned_home_position) \<Rightarrow>
          expected_end mission_items planned_home_position g)"

subsection \<open>Take-off sequencer (\<^verbatim>\<open>attempt_takeoff\<close>)\<close>

text \<open>
  What the vehicle does during one attempt: whether \<^verbatim>\<open>drone.action.arm()\<close> and
  \<^verbatim>\<open>drone.mission_raw.start_mission()\<close> return (\<open>None\<close>) or raise, the samples that
  \<^verbatim>\<open>drone.telemetry.in_air()\<close> then delivers, each with the value that
  \<^verbatim>\<open>time.time() - start_time\<close> has when the sample is looked at, and what follows the
  last of these samples: the stream is closed, which leaves the \<^verbatim>\<open>async for\<close>, or it
  stays silent, and the \<^verbatim>\<open>async for\<close> waits for ever. Wall-clock time thus enters the
  model as data.
\<close>

datatype stream_end = Closed | Silent

record attempt =
  arm :: "py_error option"
  start_mission :: "py_error option"
  in_air :: "(real \<times> bool) list"
  in_air_end :: stream_end

text \<open>What the sequencer does to the outside world.\<close>

datatype action = Arm | StartMission | Sleep real

definition max_attempts :: nat where
  "max_attempts = 5"

text \<open>
  The \<^verbatim>\<open>async for in_air in drone.telemetry.in_air()\<close> loop: \<open>Airborne\<close> when it
  executes \<^verbatim>\<open>return\<close>, \<open>Gave_up\<close> when it leaves by \<^verbatim>\<open>break\<close> or because the stream
  is closed, \<open>Forever\<close> when it waits for a sample that never comes. The clock is read
  only for a sample that is \<^verbatim>\<open>False\<close>.
\<close>

datatype waited = Airborne | Gave_up | Forever

fun await_in_air :: "(real \<times> bool) list \<Rightarrow> stream_end \<Rightarrow> waited" where
  "await_in_air [] Closed = Gave_up"
| "await_in_air [] Silent = Forever"
| "await_in_air ((elapsed, airborne) # rest) e =
     (if airborne then Airborne
      else if 1 < elapsed then Gave_up
      else await_in_air rest e)"

text \<open>
  The body of the \<^verbatim>\<open>try\<close>: the calls it issues and how it ends. \<^verbatim>\<open>except Exception\<close>
  catches whatever \<^verbatim>\<open>arm\<close> or \<^verbatim>\<open>start_mission\<close> raises, and the attempt is over.
\<close>

definition try_body :: "attempt \<Rightarrow> action list \<times> waited" where
  "try_body d =
     (case arm d of
        Some e \<Rightarrow> ([Arm], Gave_up)
      | None \<Rightarrow>
          (case start_mission d of
             Some e \<Rightarrow> ([Arm, StartMission], Gave_up)
           | None \<Rightarrow> ([Arm, StartMission], await_in_air (in_air d) (in_air_end d))))"

text \<open>
  The \<^verbatim>\<open>while attempt < max_attempts\<close> loop, from a given value of \<^verbatim>\<open>attempt\<close>; the
  vehicle is a function from the attempt's number to what it does then. The result is
  \<open>None\<close> when the function never returns, \<open>Some (Inr ())\<close> for \<^verbatim>\<open>return\<close>, and after
  the loop \<^verbatim>\<open>raise RuntimeError(...)\<close>.
\<close>

function while_attempt ::
  "(nat \<Rightarrow> attempt) \<Rightarrow> nat \<Rightarrow> action list \<times> (py_error + unit) option" where
  "while_attempt drone n =
     (if n < max_attempts then
        (if snd (try_body (drone n)) = Airborne then (fst (try_body (drone n)), Some (Inr ()))
         else if snd (try_body (drone n)) = Forever then (fst (try_body (drone n)), None)
         else (fst (try_body (drone n)) @ Sleep 1 # fst (while_attempt drone (n + 1)),
               snd (while_attempt drone (n + 1))))
      else ([], Some (Inl RuntimeError)))"
  by pat_completeness auto
termination
  by (relation "measure (\<lambda>(drone, n). max_attempts - n)") auto

declare while_attempt.simps [simp del]

definition attempt_takeoff ::
  "(nat \<Rightarrow> attempt) \<Rightarrow> action list \<times> (py_error + unit) option" where
  "attempt_takeoff drone = while_attempt drone 0"

subsection \<open>Trajectory recorder (\<^verbatim>\<open>log_odometry\<close>) and position sampler (\<^verbatim>\<open>log_gps\<close>)\<close>

text \<open>An odometry sample, a row of the CSV log, and the locals of \<^verbatim>\<open>log_odometry\<close>.\<close>

record odometry =
  time_usec :: nat
  q_w :: real
  q_x :: real
  q_y :: real
  q_z :: real
  x_m_s :: real
  y_m_s :: real
  z_m_s :: real

record row =
  SimTime :: real
  Lat :: real
  Lon :: real
  Alt :: "real option"
  qw :: real
  qx :: real
  qy :: real
  qz :: real
  Vx :: real
  Vy :: real
  Vz :: real

record recorder =
  a :: int
  b :: int
  c :: int
  last_sim_time :: "real option"

definition recorder_start :: recorder where
  "recorder_start = \<lparr>a = 1, b = 0, c = 1, last_sim_time = None\<rparr>"

definition umbral_espera :: int where
  "umbral_espera = 20 * 1"

definition sim_time_s :: "odometry \<Rightarrow> real" where
  "sim_time_s odom = real (time_usec odom) / 1000000"

text \<open>Lines 151 to 153: the sample is skipped by \<^verbatim>\<open>continue\<close>.\<close>

definition same_second :: "recorder \<Rightarrow> odometry \<Rightarrow> bool" where
  "same_second st odom =
     (case last_sim_time st of
        None \<Rightarrow> False
      | Some t \<Rightarrow> py_round (sim_time_s odom) 0 = py_round t 0)"

text \<open>
  Lines 160 to 172, the dictionary given to \<^verbatim>\<open>writer.writerow\<close>. Its values are
  computed in order: \<^verbatim>\<open>round(None, 7)\<close> raises \<^verbatim>\<open>TypeError\<close>, and only
  \<^verbatim>\<open>current_alt\<close> is tested first, by its truth value, which is false for \<^verbatim>\<open>None\<close>
  and for 0.0.
\<close>

definition writerow :: "globals \<Rightarrow> odometry \<Rightarrow> py_error + row" where
  "writerow g odom =
     (case current_lat g of
        None \<Rightarrow> Inl TypeError
      | Some lat \<Rightarrow>
          (case current_lon g of
             None \<Rightarrow> Inl TypeError
           | Some lon \<Rightarrow>
               Inr \<lparr>SimTime = py_round (sim_time_s odom) 2,
                    Lat = py_round lat 7,
                    Lon = py_round lon 7,
                    Alt = (case current_alt g of
                             None \<Rightarrow> None
                           | Some alt \<Rightarrow> if alt \<noteq> 0 then Some (py_round alt 3) else None),
                    qw = py_round (q_w odom) 0,
                    qx = py_round (q_x odom) 0,
                    qy = py_round (q_y odom) 0,
                    qz = py_round (q_z odom) 0,
                    Vx = py_round (x_m_s odom) 3,
                    Vy = py_round (y_m_s odom) 3,
                    Vz = py_round (z_m_s odom) 3\<rparr>))"

text \<open>
  \<^verbatim>\<open>x - y\<close> on floats, where \<^verbatim>\<open>y\<close> may be \<^verbatim>\<open>None\<close>: the difference rounded to the
  nearest double.
\<close>

definition minus_global :: "real \<Rightarrow> real option \<Rightarrow> py_error + real" where
  "minus_global x y = (case y of None \<Rightarrow> Inl TypeError | Some v \<Rightarrow> Inr (fl (x - v)))"

text \<open>
  The condition of line 177 with the short-circuit evaluation of \<^verbatim>\<open>and\<close>, for known
  \<^verbatim>\<open>current_lat, current_lon, current_alt\<close>; \<open>st\<close> holds the incremented \<^verbatim>\<open>a\<close>.
\<close>

definition settle_condition ::
  "globals \<Rightarrow> recorder \<Rightarrow> real \<Rightarrow> real \<Rightarrow> real \<Rightarrow> py_error + bool" where
  "settle_condition g st lat lon alt =
     (if b st \<noteq> 0 then Inr False
      else
        raising (minus_global lat (last_lat g)) (\<lambda>dlat.
        if \<not> \<bar>dlat\<bar> < fl 0.01 then Inr False
        else
          raising (minus_global lon (last_lon g)) (\<lambda>dlon.
          if \<not> \<bar>dlon\<bar> < fl 0.01 then Inr False
          else
            raising (minus_global alt (last_alt g)) (\<lambda>d.
            raising (minus_global d (inic_alt g)) (\<lambda>dalt.
            if \<not> \<bar>dalt\<bar> < fl 0.5 then Inr False
            else Inr (umbral_espera < a st))))))"

text \<open>
  The state of the recorder task: not yet created, inside its loop, returned, ended by
  an exception, or cancelled by \<^verbatim>\<open>run\<close> because \<^verbatim>\<open>log_gps\<close> finished first.
\<close>

datatype task_state = Not_started | Running | Returned | Raised py_error | Cancelled

text \<open>Lines 175 to 182, the landing check after a row has been written.\<close>

definition landing_check :: "globals \<Rightarrow> recorder \<Rightarrow> task_state \<times> recorder" where
  "landing_check g st =
     (case (current_lat g, current_lon g, current_alt g, inic_alt g) of
        (Some lat, Some lon, Some alt, Some ialt) \<Rightarrow>
          (let st1 = st\<lparr>a := a st + 1\<rparr> in
           case settle_condition g st1 lat lon alt of
             Inl e \<Rightarrow> (Raised e, st1)
           | Inr settle \<Rightarrow>
               (let st2 = (if settle then st1\<lparr>b := 1, c := a st1\<rparr> else st1) in
                if b st2 = 1 \<and> umbral_espera < a st2 - c st2 then (Returned, st2)
                else (Running, st2)))
      | _ \<Rightarrow> (Running, st))"

text \<open>
  One iteration of \<^verbatim>\<open>async for odom in drone.telemetry.odometry()\<close>: the state of the
  task after it, its locals, and the rows it appended to the log.
\<close>

definition log_odometry :: "globals \<Rightarrow> recorder \<Rightarrow> odometry \<Rightarrow> task_state \<times> recorder \<times> row list" where
  "log_odometry g st odom =
     (if same_second st odom then (Running, st, [])
      else
        (let st0 = st\<lparr>last_sim_time := Some (sim_time_s odom)\<rparr> in
         case writerow g odom of
           Inl e \<Rightarrow> (Raised e, st0, [])
         | Inr r \<Rightarrow> (fst (landing_check g st0), snd (landing_check g st0), [r])))"

text \<open>One iteration of \<^verbatim>\<open>async for gps_info in drone.telemetry.position()\<close>.\<close>

definition log_gps :: "globals \<Rightarrow> real \<Rightarrow> real \<Rightarrow> real \<Rightarrow> globals" where
  "log_gps g latitude_deg longitude_deg absolute_altitude_m =
     g\<lparr>current_lat := Some latitude_deg,
       current_lon := Some longitude_deg,
       current_alt := Some absolute_altitude_m\<rparr>"

subsection \<open>The two tasks together\<close>

text \<open>
  What a telemetry stream delivers to its task: a sample, or its end, at which the
  \<^verbatim>\<open>async for\<close> is left and the function returns. The configuration of the pair of tasks
  is the state of the recorder task, the globals, the recorder's locals and the rows
  written. When the odometry stream ends, \<^verbatim>\<open>log_odometry\<close> returns normally;
  when the position stream ends, \<^verbatim>\<open>log_gps\<close> returns, \<^verbatim>\<open>asyncio.wait\<close> returns and
  \<^verbatim>\<open>run\<close> cancels the recorder. Once the recorder has returned, raised or been
  cancelled, nothing that is delivered changes the configuration. A configuration
  describes the tasks after a finite prefix of what the streams deliver.
\<close>

datatype event =
    Position real real real
  | Odometry odometry
  | Position_end
  | Odometry_end

record config =
  state :: task_state
  shared :: globals
  locals :: recorder
  csv :: "row list"

definition deliver :: "config \<Rightarrow> event \<Rightarrow> config" where
  "deliver cfg ev =
     (if state cfg \<noteq> Running then cfg
      else
        (case ev of
           Position lat lon alt \<Rightarrow> cfg\<lparr>shared := log_gps (shared cfg) lat lon alt\<rparr>
         | Odometry odom \<Rightarrow>
             (let r = log_odometry (shared cfg) (locals cfg) odom
              in cfg\<lparr>state := fst r, locals := fst (snd r), csv := csv cfg @ snd (snd r)\<rparr>)
         | Position_end \<Rightarrow> cfg\<lparr>state := Cancelled\<rparr>
         | Odometry_end \<Rightarrow> cfg\<lparr>state := Returned\<rparr>))"

definition tasks :: "globals \<Rightarrow> event list \<Rightarrow> config" where
  "tasks g evs =
     foldl deliver \<lparr>state = Running, shared = g, locals = recorder_start, csv = []\<rparr> evs"

subsection \<open>The race of the two tasks (\<^verbatim>\<open>run\<close>, lines 87 to 95)\<close>

text \<open>
  The asyncio calls of lines 87 to 95: the two \<^verbatim>\<open>create_task\<close> calls, the awaited
  \<^verbatim>\<open>asyncio.wait(..., return_when=FIRST_COMPLETED)\<close>, and \<^verbatim>\<open>task.cancel()\<close> for each
  pending task. \<open>Await\<close> stands for awaiting a task; the lines contain no such call
  after the \<^verbatim>\<open>cancel\<close>. \<open>race\<close> gives the calls made so far in a configuration, and
  whether the \<^verbatim>\<open>with\<close> block has been left: while the recorder runs, \<^verbatim>\<open>run\<close> is
  suspended in \<^verbatim>\<open>asyncio.wait\<close>; when the recorder is done, \<^verbatim>\<open>log_gps\<close> is the
  pending task, and when \<^verbatim>\<open>log_gps\<close> is done, the recorder is.
\<close>

datatype task = Log_gps | Log_odometry

datatype call = Create_task task | Wait_first_completed | Cancel task | Await task

definition race :: "config \<Rightarrow> call list \<times> bool" where
  "race cfg =
     (case state cfg of
        Not_started \<Rightarrow> ([], False)
      | Running \<Rightarrow>
          ([Create_task Log_gps, Create_task Log_odometry, Wait_first_completed], False)
      | Cancelled \<Rightarrow>
          ([Create_task Log_gps, Create_task Log_odometry, Wait_first_completed,
            Cancel Log_odometry], True)
      | _ \<Rightarrow>
          ([Create_task Log_gps, Create_task Log_odometry, Wait_first_completed,
            Cancel Log_gps], True))"

subsection \<open>The mission controller (\<^verbatim>\<open>run\<close>)\<close>

text \<open>
  \<^verbatim>\<open>run\<close> loads the mission, takes off and records. Its only handler is
  \<^verbatim>\<open>except asyncio.CancelledError\<close>, so every exception of \<open>py_error\<close> raised by the
  loader or by \<^verbatim>\<open>attempt_takeoff\<close> leaves \<^verbatim>\<open>run\<close>; an exception inside the recorder
  task stays in the task. When \<^verbatim>\<open>attempt_takeoff\<close> never returns, the tasks are never
  created. Connecting, uploading and the health wait belong to the vehicle link and are
  taken to succeed.
\<close>

definition run ::
  "mission_file \<Rightarrow> (nat \<Rightarrow> attempt) \<Rightarrow> event list \<Rightarrow> py_error + (action list \<times> config)" where
  "run f drone evs =
     raising (mission_loader f module_globals) (\<lambda>g.
       case attempt_takeoff drone of
         (acts, None) \<Rightarrow>
           Inr (acts, \<lparr>state = Not_started, shared = g, locals = recorder_start, csv = []\<rparr>)
       | (acts, Some (Inl e)) \<Rightarrow> Inl e
       | (acts, Some (Inr u)) \<Rightarrow> Inr (acts, tasks g evs))"

subsection \<open>Invariant of the landing detection\<close>

text \<open>
  What holds of the recorder's counters in every state of the task: \<^verbatim>\<open>b\<close> is a flag,
  it is set only with \<^verbatim>\<open>c\<close> above the threshold and not above \<^verbatim>\<open>a\<close>, and while
  the task runs the second threshold is not exceeded.
\<close>

definition settled_ok :: "task_state \<Rightarrow> recorder \<Rightarrow> bool" where
  "settled_ok s st \<longleftrightarrow>
     (b st = 0 \<or> b st = 1) \<and>
     (b st = 1 \<longrightarrow> umbral_espera < c st \<and> c st \<le> a st) \<and>
     (s = Running \<longrightarrow> \<not> (b st = 1 \<and> umbral_espera < a st - c st))"

text \<open>
  What holds of the log after the samples \<open>evs\<close>: nothing is logged before a sample has
  been accepted; afterwards \<^verbatim>\<open>last_sim_time\<close> is the time of one of the samples, and
  while the recorder runs the position is known and the last row carries that time.
\<close>

definition logged_ok :: "event list \<Rightarrow> config \<Rightarrow> bool" where
  "logged_ok evs cfg \<longleftrightarrow>
     (case last_sim_time (locals cfg) of
        None \<Rightarrow> csv cfg = []
      | Some t \<Rightarrow>
          (\<exists>odom. Odometry odom \<in> set evs \<and> t = sim_time_s odom) \<and>
          (state cfg = Running \<longrightarrow>
             current_lat (shared cfg) \<noteq> None \<and> current_lon (shared cfg) \<noteq> None \<and>
             csv cfg \<noteq> [] \<and> SimTime (last (csv cfg)) = py_round t 2))"

subsection \<open>Concrete inputs\<close>

text \<open>
  Inputs for the examples below: an odometry sample of a vehicle at rest with a given
  time stamp, a vehicle that reports being in the air at once, one that never does
  (each attempt sees two samples, the second after the one-second window), one whose
  only report, in the air, comes after an hour, and one whose in-air stream stays
  silent.
\<close>

definition sample_at :: "nat \<Rightarrow> odometry" where
  "sample_at t =
     \<lparr>time_usec = t, q_w = 1, q_x = 0, q_y = 0, q_z = 0, x_m_s = 0, y_m_s = 0, z_m_s = 0\<rparr>"

definition airborne_at_once :: "nat \<Rightarrow> attempt" where
  "airborne_at_once n =
     \<lparr>arm = None, start_mission = None, in_air = [(1 / 5, True)], in_air_end = Silent\<rparr>"

definition never_airborne :: "nat \<Rightarrow> attempt" where
  "never_airborne n =
     \<lparr>arm = None, start_mission = None, in_air = [(1 / 2, False), (6 / 5, False)],
      in_air_end = Silent\<rparr>"

definition airborne_after_an_hour :: "nat \<Rightarrow> attempt" where
  "airborne_after_an_hour n =
     \<lparr>arm = None, start_mission = None, in_air = [(3600, True)], in_air_end = Silent\<rparr>"

definition silent_stream :: "nat \<Rightarrow> attempt" where
  "silent_stream n =
     \<lparr>arm = None, start_mission = None, in_air = [(1 / 2, False)], in_air_end = Silent\<rparr>"

text \<open>
  The globals after loading a plan that ends in a landing at (11, 21, 50) with home
  altitude 100, the same with the vehicle on the ground at the landing site
  (150.25 m above mean sea level) or at sea level, and a stream of odometry samples, one
  per second.
\<close>

definition loaded :: globals where
  "loaded = module_globals\<lparr>last_lat := Some 11, last_lon := Some 21, last_alt := Some 50,
              inic_alt := Some 100\<rparr>"

definition landed :: globals where
  "landed = loaded\<lparr>current_lat := Some 11, current_lon := Some 21,
              current_alt := Some (601 / 4)\<rparr>"

definition at_sea_level :: globals where
  "at_sea_level = module_globals\<lparr>current_lat := Some 1, current_lon := Some 2,
              current_alt := Some 0\<rparr>"

function seconds :: "nat \<Rightarrow> nat \<Rightarrow> event list" where
  "seconds i j =
     (if i < j then Odometry (sample_at (i * 1000000)) # seconds (i + 1) j else [])"
  by pat_completeness auto
termination
  by (relation "measure (\<lambda>(i, j). j - i)") auto

declare seconds.simps [simp del]

text \<open>
  The doubles that 100.8 and 0.3 stand for, the globals after loading a plan that ends in
  a landing at (11, 21, 0.3) with home altitude 100, and twenty seconds of odometry with
  the vehicle at (11, 21, 100.8).
\<close>

definition d_100_8 :: real where
  "d_100_8 = 7093169413108531 / 2 ^ 46"

definition d_0_3 :: real where
  "d_0_3 = 5404319552844595 / 2 ^ 54"

definition loaded_low :: globals where
  "loaded_low = module_globals\<lparr>last_lat := Some 11, last_lon := Some 21,
                 last_alt := Some d_0_3, inic_alt := Some 100\<rparr>"

definition twenty_seconds_low :: "event list" where
  "twenty_seconds_low = Position 11 21 d_100_8 # seconds 1 21"

text \<open>The plan behind \<open>loaded_low\<close>: the JSON number 0.3 is read as a double.\<close>

definition landing_plan_low :: mission_file where
  "landing_plan_low =
     Json (Some \<lparr>items = Some [\<lparr>command = 22, params = [15, 0, 0, 0, 10, 20, 30]\<rparr>,
                                 \<lparr>command = 21, params = [0, 0, 0, 0, 11, 21, d_0_3]\<rparr>],
                 plannedHomePosition = Some [10, 20, 100]\<rparr>)"

text \<open>A position sample followed by the odometry sample of second 5.\<close>

definition one_row :: "event list" where
  "one_row = [Position 1 2 3, Odometry (sample_at 5000000)]"

text \<open>
  The first position sample, then nineteen or forty seconds of odometry at the landing
  site.
\<close>

definition nineteen_seconds :: "event list" where
  "nineteen_seconds = Position 11 21 (601 / 4) # seconds 1 20"

definition forty_seconds :: "event list" where
  "forty_seconds = Position 11 21 (601 / 4) # seconds 1 41"

text \<open>
  The plan behind \<open>loaded\<close>, and a vehicle whose first \<^verbatim>\<open>arm\<close> call raises and which
  is in the air at the second attempt.
\<close>

definition landing_plan :: mission_file where
  "landing_plan =
     Json (Some \<lparr>items = Some [\<lparr>command = 22, params = [15, 0, 0, 0, 10, 20, 30]\<rparr>,
                                 \<lparr>command = 21, params = [0, 0, 0, 0, 11, 21, 50]\<rparr>],
                 plannedHomePosition = Some [10, 20, 100]\<rparr>)"

definition arm_fails_once :: "nat \<Rightarrow> attempt" where
  "arm_fails_once n =
     \<lparr>arm = (if n = 0 then Some RuntimeError else None), start_mission = None,
      in_air = [(1 / 5, False), (2 / 5, True)], in_air_end = Silent\<rparr>"


text \<open>
  The ordering the log's data model asks for, read on the logged \<^verbatim>\<open>SimTime\<close> values:
  each row's whole second is greater than the whole second of the row before it.
\<close>

fun whole_seconds_increasing :: "row list \<Rightarrow> bool" where
  "whole_seconds_increasing (r # r' # rs) =
     (py_round (SimTime r) 0 < py_round (SimTime r') 0 \<and> whole_seconds_increasing (r' # rs))"
| "whole_seconds_increasing rs = True"

section \<open>Properties\<close>

subsection \<open>Mission loader\<close>

lemma getitem_in: "i < length xs \<Longrightarrow> getitem xs i = Inr (xs ! i)"
  by (simp add: getitem_def)

lemma raising_Inr: "raising (Inr v) k = k v"
  by (simp add: raising_def)


text \<open>
  C3. For a plan with a non-empty item list and a home position (latitude, longitude,
  altitude): when the last item's command is 20, the expected end position is the home
  position and \<^verbatim>\<open>inic_alt\<close> (the base altitude) is 0; otherwise the expected end
  position is the last item's parameters 4, 5 and 6 and \<^verbatim>\<open>inic_alt\<close> is the home
  altitude. The parameters 4, 5, 6 are taken to exist, as they do in a waypoint item.
\<close>

theorem mission_loader_expected_end:
  assumes "mission_items \<noteq> []"
    and "3 \<le> length home"
    and "command (last mission_items) \<noteq> 20 \<Longrightarrow> 7 \<le> length (params (last mission_items))"
  shows "mission_loader
           (Json (Some \<lparr>items = Some mission_items, plannedHomePosition = Some home\<rparr>)) g =
     (if command (last mission_items) = 20
      then Inr (g\<lparr>last_lat := Some (home ! 0), last_lon := Some (home ! 1),
                  last_alt := Some (home ! 2), inic_alt := Some 0\<rparr>)
      else Inr (g\<lparr>last_lat := Some (params (last mission_items) ! 4),
                  last_lon := Some (params (last mission_items) ! 5),
                  last_alt := Some (params (last mission_items) ! 6),
                  inic_alt := Some (home ! 2)\<rparr>))"
proof -
  from assms(2) have home: "home \<noteq> []" "0 < length home" "1 < length home" "2 < length home"
    by auto
  show ?thesis
  proof (cases "command (last mission_items) = 20")
    case True
    with assms(1) home show ?thesis
      by (simp add: mission_loader_def read_mission_def expected_end_def getitem_in
          raising_Inr Let_def)
  next
    case False
    with assms(3) have "4 < length (params (last mission_items))"
      "5 < length (params (last mission_items))" "6 < length (params (last mission_items))"
      by auto
    with False assms(1) home show ?thesis
      by (simp add: mission_loader_def read_mission_def expected_end_def getitem_in
          raising_Inr Let_def)
  qed
qed

text \<open>
  The two end-to-end scenarios: home (10, 20, 100) with a single return-to-launch item,
  and a plan that ends in a landing item at (11, 21, 50).
\<close>

theorem mission_loader_expected_end_witness:
  "mission_loader (Json (Some \<lparr>items = Some [\<lparr>command = 20, params = []\<rparr>],
       plannedHomePosition = Some [10, 20, 100]\<rparr>)) module_globals =
     Inr (module_globals\<lparr>last_lat := Some 10, last_lon := Some 20, last_alt := Some 100,
            inic_alt := Some 0\<rparr>) \<and>
   mission_loader (Json (Some \<lparr>items = Some [\<lparr>command = 22, params = [15, 0, 0, 0, 10, 20, 30]\<rparr>,
          \<lparr>command = 21, params = [0, 0, 0, 0, 11, 21, 50]\<rparr>],
       plannedHomePosition = Some [10, 20, 100]\<rparr>)) module_globals =
     Inr (module_globals\<lparr>last_lat := Some 11, last_lon := Some 21, last_alt := Some 50,
            inic_alt := Some 100\<rparr>)"
  using mission_loader_expected_end [of "[\<lparr>command = 20, params = []\<rparr>]" "[10, 20, 100]"
      module_globals]
    mission_loader_expected_end [of "[\<lparr>command = 22, params = [15, 0, 0, 0, 10, 20, 30]\<rparr>,
          \<lparr>command = 21, params = [0, 0, 0, 0, 11, 21, 50]\<rparr>]" "[10, 20, 100]" module_globals]
  by simp





subsection \<open>Take-off sequencer\<close>

lemma try_body_actions: "fst (try_body d) = (if arm d = None then [Arm, StartMission] else [Arm])"
  by (simp add: try_body_def split: option.splits)

lemma try_body_waited:
  "snd (try_body d) =
     (if arm d = None \<and> start_mission d = None then await_in_air (in_air d) (in_air_end d)
      else Gave_up)"
  by (simp add: try_body_def split: option.splits)

lemma await_in_air_Cons_False:
  "await_in_air ((elapsed, False) # rest) e = (if 1 < elapsed then Gave_up else await_in_air rest e)"
  by simp

lemma await_in_air_airborne:
  "await_in_air s e = Airborne \<longleftrightarrow>
     (\<exists>i<length s. snd (s ! i) \<and> (\<forall>j<i. \<not> snd (s ! j) \<and> fst (s ! j) \<le> 1))"
proof (induction s)
  case Nil
  show ?case by (cases e) simp_all
next
  case (Cons x rest)
  obtain elapsed airborne where x: "x = (elapsed, airborne)" by (cases x)
  let ?s = "(elapsed, airborne) # rest"
  let ?found = "\<lambda>s. \<exists>i<length s. snd (s ! i) \<and> (\<forall>j<i. \<not> snd (s ! j) \<and> fst (s ! j) \<le> 1)"
  show ?case
  proof (cases airborne)
    case True
    then have "snd (?s ! 0) \<and> (\<forall>j<0. \<not> snd (?s ! j) \<and> fst (?s ! j) \<le> 1)"
      by simp
    then have "?found ?s"
      by (intro exI [of _ 0]) simp
    with True x show ?thesis by simp
  next
    case False
    show ?thesis
    proof (cases "1 < elapsed")
      case late: True
      have "\<not> ?found ?s"
      proof
        assume "?found ?s"
        then obtain i where i: "snd (?s ! i)"
          "\<forall>j<i. \<not> snd (?s ! j) \<and> fst (?s ! j) \<le> 1"
          by blast
        from i(1) False have "0 < i" by (cases i) simp_all
        with i(2) have "fst (?s ! 0) \<le> 1" by blast
        with late show False by simp
      qed
      with False late x show ?thesis by simp
    next
      case early: False
      have "?found ?s \<longleftrightarrow> ?found rest"
      proof
        assume "?found ?s"
        then obtain i where i: "i < length ?s" "snd (?s ! i)"
          "\<forall>j<i. \<not> snd (?s ! j) \<and> fst (?s ! j) \<le> 1"
          by blast
        from i(2) False obtain i' where i': "i = Suc i'" by (cases i) simp_all
        with i have "i' < length rest" "snd (rest ! i')" by simp_all
        moreover have "\<forall>j<i'. \<not> snd (rest ! j) \<and> fst (rest ! j) \<le> 1"
        proof (intro allI impI)
          fix j assume "j < i'"
          with i' have "Suc j < i" by simp
          with i(3) have "\<not> snd (?s ! Suc j) \<and> fst (?s ! Suc j) \<le> 1" by blast
          then show "\<not> snd (rest ! j) \<and> fst (rest ! j) \<le> 1" by simp
        qed
        ultimately show "?found rest" by blast
      next
        assume "?found rest"
        then obtain i where i: "i < length rest" "snd (rest ! i)"
          "\<forall>j<i. \<not> snd (rest ! j) \<and> fst (rest ! j) \<le> 1" by blast
        have "\<forall>j<Suc i. \<not> snd (?s ! j) \<and> fst (?s ! j) \<le> 1"
        proof (intro allI impI)
          fix j assume "j < Suc i"
          with i(3) False early show "\<not> snd (?s ! j) \<and> fst (?s ! j) \<le> 1"
            by (cases j) simp_all
        qed
        with i(1,2) have "Suc i < length ?s \<and> snd (?s ! Suc i) \<and>
            (\<forall>j<Suc i. \<not> snd (?s ! j) \<and> fst (?s ! j) \<le> 1)" by simp
        then show "?found ?s" by blast
      qed
      with False early x Cons show ?thesis by simp
    qed
  qed
qed

lemma await_in_air_forever:
  "await_in_air s e = Forever \<longleftrightarrow>
     e = Silent \<and> (\<forall>j<length s. \<not> snd (s ! j) \<and> fst (s ! j) \<le> 1)"
proof (induction s)
  case Nil
  show ?case by (cases e) simp_all
next
  case (Cons x rest)
  obtain elapsed airborne where x: "x = (elapsed, airborne)" by (cases x)
  have all: "(\<forall>j<length (x # rest). \<not> snd ((x # rest) ! j) \<and> fst ((x # rest) ! j) \<le> 1) \<longleftrightarrow>
      (\<not> snd x \<and> fst x \<le> 1) \<and> (\<forall>j<length rest. \<not> snd (rest ! j) \<and> fst (rest ! j) \<le> 1)"
    by (auto simp: nth_Cons' less_Suc_eq_0_disj)
  show ?case
    unfolding all using Cons x by auto
qed


lemma while_attempt_exhausted:
  assumes "\<forall>k. n \<le> k \<and> k < max_attempts \<longrightarrow> snd (try_body (drone k)) = Gave_up"
  shows "while_attempt drone n =
     (concat (map (\<lambda>k. fst (try_body (drone k)) @ [Sleep 1]) [n..<max_attempts]),
      Some (Inl RuntimeError))"
  using assms
proof (induction "max_attempts - n" arbitrary: n)
  case 0
  then have "\<not> n < max_attempts" by simp
  then show ?case by (simp add: while_attempt.simps)
next
  case (Suc m)
  then have lt: "n < max_attempts" by simp
  with Suc.prems have fail: "snd (try_body (drone n)) = Gave_up" by simp
  from Suc have "while_attempt drone (n + 1) =
     (concat (map (\<lambda>k. fst (try_body (drone k)) @ [Sleep 1]) [n + 1..<max_attempts]),
      Some (Inl RuntimeError))"
    by (intro Suc.hyps(1)) simp_all
  with lt fail show ?case
    by (subst while_attempt.simps) (simp add: upt_conv_Cons)
qed

lemma while_attempt_decided:
  assumes "n \<le> k" and "k < max_attempts" and "snd (try_body (drone k)) \<noteq> Gave_up"
    and "\<forall>j. n \<le> j \<and> j < k \<longrightarrow> snd (try_body (drone j)) = Gave_up"
  shows "while_attempt drone n =
     (concat (map (\<lambda>j. fst (try_body (drone j)) @ [Sleep 1]) [n..<k]) @ fst (try_body (drone k)),
      if snd (try_body (drone k)) = Airborne then Some (Inr ()) else None)"
  using assms
proof (induction "k - n" arbitrary: n)
  case 0
  then have "n = k" by simp
  with 0 show ?case
    by (subst while_attempt.simps) (cases "snd (try_body (drone k))"; simp)
next
  case (Suc m)
  then have lt: "n < k" by simp
  with Suc.prems have fail: "snd (try_body (drone n)) = Gave_up" and n: "n < max_attempts"
    by simp_all
  from Suc have "while_attempt drone (n + 1) =
     (concat (map (\<lambda>j. fst (try_body (drone j)) @ [Sleep 1]) [n + 1..<k]) @ fst (try_body (drone k)),
      if snd (try_body (drone k)) = Airborne then Some (Inr ()) else None)"
    by (intro Suc.hyps(1)) simp_all
  with lt fail n show ?case
    by (subst while_attempt.simps) (simp add: upt_conv_Cons)
qed

lemma count_Arm_try_body: "count_list (fst (try_body d)) Arm = 1"
  by (simp add: try_body_actions)

lemma count_Arm_attempts:
  "count_list (concat (map (\<lambda>k. fst (try_body (drone k)) @ [Sleep 1]) [n..<m])) Arm = m - n"
proof (induction m)
  case 0
  show ?case by simp
next
  case (Suc m)
  then show ?case
    by (cases "n \<le> m") (simp_all add: count_Arm_try_body)
qed

lemma count_Sleep_attempts:
  "count_list (concat (map (\<lambda>k. fst (try_body (drone k)) @ [Sleep 1]) [n..<m])) (Sleep 1) = m - n"
proof (induction m)
  case 0
  show ?case by simp
next
  case (Suc m)
  then show ?case
    by (cases "n \<le> m") (simp_all add: try_body_actions)
qed

lemma first_decided:
  assumes "k0 < max_attempts" and "snd (try_body (drone k0)) \<noteq> Gave_up"
  shows "\<exists>k<max_attempts. snd (try_body (drone k)) \<noteq> Gave_up \<and>
           (\<forall>j<k. snd (try_body (drone j)) = Gave_up)"
proof -
  let ?P = "\<lambda>k. snd (try_body (drone k)) \<noteq> Gave_up"
  have 1: "?P (Least ?P)" using assms(2) by (rule LeastI)
  have 2: "Least ?P \<le> k0" using assms(2) by (rule Least_le)
  have 3: "\<forall>j<Least ?P. snd (try_body (drone j)) = Gave_up"
  proof (intro allI impI)
    fix j assume "j < Least ?P"
    then have "\<not> ?P j" by (rule not_less_Least)
    then show "snd (try_body (drone j)) = Gave_up" by simp
  qed
  from 2 assms(1) have "Least ?P < max_attempts" by simp
  with 1 3 show ?thesis by blast
qed

lemma attempt_takeoff_exhausted:
  assumes "\<forall>k<max_attempts. snd (try_body (drone k)) = Gave_up"
  shows "attempt_takeoff drone =
       (concat (map (\<lambda>k. fst (try_body (drone k)) @ [Sleep 1]) [0..<max_attempts]),
        Some (Inl RuntimeError))"
proof -
  from assms have "\<forall>k. 0 \<le> k \<and> k < max_attempts \<longrightarrow> snd (try_body (drone k)) = Gave_up"
    by simp
  from while_attempt_exhausted [OF this] show ?thesis
    by (simp only: attempt_takeoff_def)
qed

lemma attempt_takeoff_decided:
  assumes "k < max_attempts" and "snd (try_body (drone k)) \<noteq> Gave_up"
    and "\<forall>j<k. snd (try_body (drone j)) = Gave_up"
  shows "attempt_takeoff drone =
       (concat (map (\<lambda>j. fst (try_body (drone j)) @ [Sleep 1]) [0..<k]) @ fst (try_body (drone k)),
        if snd (try_body (drone k)) = Airborne then Some (Inr ()) else None)"
proof -
  from assms(3) have "\<forall>j. 0 \<le> j \<and> j < k \<longrightarrow> snd (try_body (drone j)) = Gave_up" by simp
  from while_attempt_decided [OF _ assms(1,2) this] show ?thesis
    by (simp only: attempt_takeoff_def le0)
qed

text \<open>The three ways in which the loop ends, and the attempt that decides.\<close>

lemma attempt_takeoff_cases:
  obtains
    (exhausted) "\<forall>k<5. snd (try_body (drone k)) = Gave_up"
      "attempt_takeoff drone =
         (concat (map (\<lambda>k. fst (try_body (drone k)) @ [Sleep 1]) [0..<5]),
          Some (Inl RuntimeError))"
  | (airborne) k where "k < 5" "snd (try_body (drone k)) = Airborne"
      "\<forall>j<k. snd (try_body (drone j)) = Gave_up"
      "attempt_takeoff drone =
         (concat (map (\<lambda>j. fst (try_body (drone j)) @ [Sleep 1]) [0..<k]) @
            fst (try_body (drone k)), Some (Inr ()))"
  | (forever) k where "k < 5" "snd (try_body (drone k)) = Forever"
      "\<forall>j<k. snd (try_body (drone j)) = Gave_up"
      "attempt_takeoff drone =
         (concat (map (\<lambda>j. fst (try_body (drone j)) @ [Sleep 1]) [0..<k]) @
            fst (try_body (drone k)), None)"
proof (cases "\<forall>k<max_attempts. snd (try_body (drone k)) = Gave_up")
  case True
  from attempt_takeoff_exhausted [OF True] True exhausted show ?thesis
    by (simp add: max_attempts_def)
next
  case False
  then obtain k0 where "k0 < max_attempts" "snd (try_body (drone k0)) \<noteq> Gave_up" by blast
  from first_decided [of k0 drone, OF this] obtain k where k: "k < max_attempts"
    "snd (try_body (drone k)) \<noteq> Gave_up" "\<forall>j<k. snd (try_body (drone j)) = Gave_up"
    by blast
  note eq = attempt_takeoff_decided [OF k]
  from k(1) have k5: "k < 5" by (simp add: max_attempts_def)
  show ?thesis
  proof (cases "snd (try_body (drone k))")
    case Airborne
    with eq k5 k(3) airborne show ?thesis by simp
  next
    case Gave_up
    with k(2) show ?thesis by simp
  next
    case Forever
    with eq k5 k(3) forever show ?thesis by simp
  qed
qed

lemma never_airborne_run:
  "attempt_takeoff never_airborne =
     ([Arm, StartMission, Sleep 1, Arm, StartMission, Sleep 1, Arm, StartMission, Sleep 1,
       Arm, StartMission, Sleep 1, Arm, StartMission, Sleep 1], Some (Inl RuntimeError))"
  by (simp add: attempt_takeoff_def while_attempt.simps max_attempts_def try_body_def
      never_airborne_def)

lemma arm_fails_once_run:
  "attempt_takeoff arm_fails_once = ([Arm, Sleep 1, Arm, StartMission], Some (Inr ()))"
  by (simp add: attempt_takeoff_def while_attempt.simps max_attempts_def try_body_def
      arm_fails_once_def)

lemma landing_plan_loaded: "mission_loader landing_plan module_globals = Inr loaded"
  by (simp add: mission_loader_def read_mission_def expected_end_def landing_plan_def
      loaded_def getitem_def raising_def)

text \<open>
  C4, as the code has it. \<^verbatim>\<open>attempt_takeoff\<close> arms at most 5 times. An attempt issues
  \<^verbatim>\<open>arm\<close>, then \<^verbatim>\<open>start_mission\<close>, then reads the in-air stream. It succeeds, and
  \<^verbatim>\<open>attempt_takeoff\<close> returns at once, at the first sample that reports the vehicle in
  the air, however late that sample comes: the clock is read only for a sample that
  reports the vehicle on the ground, and the attempt is given up at the first such
  sample seen more than one second after the start of the wait, or when the stream is
  closed. While the stream stays silent the attempt waits, and \<^verbatim>\<open>attempt_takeoff\<close>
  never returns. An attempt that is given up, or in which \<^verbatim>\<open>arm\<close> or
  \<^verbatim>\<open>start_mission\<close> raises, is a failed attempt: it is followed by \<^verbatim>\<open>sleep(1)\<close> and
  the loop goes on. If all five attempts fail in this way, exactly 5 attempts are made,
  each followed by the sleep, and then \<^verbatim>\<open>RuntimeError\<close> (the take-off failure) is
  raised, and it leaves \<^verbatim>\<open>run\<close> as well.
\<close>

theorem attempt_takeoff_retries:
  "count_list (fst (attempt_takeoff drone)) Arm \<le> 5 \<and>
   (snd (attempt_takeoff drone) = Some (Inr ()) \<longleftrightarrow>
      (\<exists>k<5. snd (try_body (drone k)) = Airborne \<and>
         (\<forall>j<k. snd (try_body (drone j)) = Gave_up))) \<and>
   (snd (attempt_takeoff drone) = None \<longleftrightarrow>
      (\<exists>k<5. snd (try_body (drone k)) = Forever \<and>
         (\<forall>j<k. snd (try_body (drone j)) = Gave_up))) \<and>
   ((\<forall>k<5. snd (try_body (drone k)) = Gave_up) \<longrightarrow>
      attempt_takeoff drone =
        (concat (map (\<lambda>k. fst (try_body (drone k)) @ [Sleep 1]) [0..<5]),
         Some (Inl RuntimeError)) \<and>
      count_list (fst (attempt_takeoff drone)) Arm = 5 \<and>
      (\<forall>f g evs. mission_loader f module_globals = Inr g \<longrightarrow>
         run f drone evs = Inl RuntimeError)) \<and>
   (\<forall>k<5. snd (try_body (drone k)) = Airborne \<and>
        (\<forall>j<k. snd (try_body (drone j)) = Gave_up) \<longrightarrow>
      attempt_takeoff drone =
        (concat (map (\<lambda>j. fst (try_body (drone j)) @ [Sleep 1]) [0..<k]) @
           fst (try_body (drone k)), Some (Inr ())) \<and>
      count_list (fst (attempt_takeoff drone)) Arm = k + 1) \<and>
   (\<forall>k<5. snd (try_body (drone k)) = Forever \<and>
        (\<forall>j<k. snd (try_body (drone j)) = Gave_up) \<longrightarrow>
      attempt_takeoff drone =
        (concat (map (\<lambda>j. fst (try_body (drone j)) @ [Sleep 1]) [0..<k]) @
           fst (try_body (drone k)), None)) \<and>
   fst (try_body d) = (if arm d = None then [Arm, StartMission] else [Arm]) \<and>
   snd (try_body d) =
     (if arm d = None \<and> start_mission d = None then await_in_air (in_air d) (in_air_end d)
      else Gave_up) \<and>
   (await_in_air s e = Airborne \<longleftrightarrow>
      (\<exists>i<length s. snd (s ! i) \<and> (\<forall>j<i. \<not> snd (s ! j) \<and> fst (s ! j) \<le> 1))) \<and>
   (await_in_air s e = Forever \<longleftrightarrow>
      e = Silent \<and> (\<forall>j<length s. \<not> snd (s ! j) \<and> fst (s ! j) \<le> 1))"
proof -
  let ?w = "\<lambda>k. snd (try_body (drone k))"
  let ?first = "\<lambda>v k. ?w k = v \<and> (\<forall>j<k. ?w j = Gave_up)"
  have unique: "k = k'" if "k < 5" "?w k \<noteq> Gave_up" "\<forall>j<k. ?w j = Gave_up"
    "?w k' \<noteq> Gave_up" "\<forall>j<k'. ?w j = Gave_up" for k k'
  proof (rule ccontr)
    assume "k \<noteq> k'"
    then consider "k < k'" | "k' < k" by linarith
    then show False
    proof cases
      case 1
      with that(5) have "?w k = Gave_up" by blast
      with that(2) show False by simp
    next
      case 2
      with that(3) have "?w k' = Gave_up" by blast
      with that(4) show False by simp
    qed
  qed
  have exhausted: "attempt_takeoff drone =
        (concat (map (\<lambda>k. fst (try_body (drone k)) @ [Sleep 1]) [0..<5]),
         Some (Inl RuntimeError)) \<and>
      count_list (fst (attempt_takeoff drone)) Arm = 5 \<and>
      (\<forall>f g evs. mission_loader f module_globals = Inr g \<longrightarrow>
         run f drone evs = Inl RuntimeError)"
    if never: "\<forall>k<5. ?w k = Gave_up"
  proof -
    from never have "\<forall>k<max_attempts. ?w k = Gave_up"
      by (simp add: max_attempts_def)
    from attempt_takeoff_exhausted [OF this]
    have eq: "attempt_takeoff drone =
        (concat (map (\<lambda>k. fst (try_body (drone k)) @ [Sleep 1]) [0..<5]),
         Some (Inl RuntimeError))"
      by (simp add: max_attempts_def)
    then have "count_list (fst (attempt_takeoff drone)) Arm = 5"
      by (simp add: count_Arm_attempts)
    moreover from eq have "\<forall>f g evs. mission_loader f module_globals = Inr g \<longrightarrow>
        run f drone evs = Inl RuntimeError"
      by (simp add: run_def raising_Inr)
    ultimately show ?thesis using eq by blast
  qed
  have decided: "attempt_takeoff drone =
        (concat (map (\<lambda>j. fst (try_body (drone j)) @ [Sleep 1]) [0..<k]) @
           fst (try_body (drone k)), if ?w k = Airborne then Some (Inr ()) else None) \<and>
      count_list (fst (attempt_takeoff drone)) Arm = k + 1"
    if "k < 5" and "?w k \<noteq> Gave_up" and "\<forall>j<k. ?w j = Gave_up" for k
  proof -
    from that(1) have "k < max_attempts" by (simp add: max_attempts_def)
    from attempt_takeoff_decided [OF this that(2,3)]
    have eq: "attempt_takeoff drone =
        (concat (map (\<lambda>j. fst (try_body (drone j)) @ [Sleep 1]) [0..<k]) @
           fst (try_body (drone k)), if ?w k = Airborne then Some (Inr ()) else None)" .
    then have "count_list (fst (attempt_takeoff drone)) Arm = k + 1"
      by (simp add: count_Arm_attempts count_Arm_try_body)
    with eq show ?thesis by blast
  qed
  have airborne: "attempt_takeoff drone =
        (concat (map (\<lambda>j. fst (try_body (drone j)) @ [Sleep 1]) [0..<k]) @
           fst (try_body (drone k)), Some (Inr ())) \<and>
      count_list (fst (attempt_takeoff drone)) Arm = k + 1"
    if "k < 5" and "?first Airborne k" for k
    using decided [of k] that by (simp add: count_Arm_attempts count_Arm_try_body)
  have forever: "attempt_takeoff drone =
        (concat (map (\<lambda>j. fst (try_body (drone j)) @ [Sleep 1]) [0..<k]) @
           fst (try_body (drone k)), None)"
    if "k < 5" and "?first Forever k" for k
    using decided [of k] that by (simp add: count_Arm_attempts count_Arm_try_body)
  have bound: "count_list (fst (attempt_takeoff drone)) Arm \<le> 5"
    and returns: "snd (attempt_takeoff drone) = Some (Inr ()) \<longleftrightarrow> (\<exists>k<5. ?first Airborne k)"
    and hangs: "snd (attempt_takeoff drone) = None \<longleftrightarrow> (\<exists>k<5. ?first Forever k)"
  proof -
    consider (none) "\<forall>k<5. ?w k = Gave_up"
      | (some) k where "k < 5" "?w k \<noteq> Gave_up" "\<forall>j<k. ?w j = Gave_up"
    proof (cases "\<forall>k<5. ?w k = Gave_up")
      case True
      then show ?thesis by (rule none)
    next
      case False
      then obtain k0 where "k0 < max_attempts" "?w k0 \<noteq> Gave_up"
        by (auto simp: max_attempts_def)
      from first_decided [of k0 drone, OF this] obtain k where "k < 5" "?w k \<noteq> Gave_up"
        "\<forall>j<k. ?w j = Gave_up"
        by (auto simp: max_attempts_def)
      then show ?thesis by (rule some)
    qed
    then have "count_list (fst (attempt_takeoff drone)) Arm \<le> 5 \<and>
      (snd (attempt_takeoff drone) = Some (Inr ()) \<longleftrightarrow> (\<exists>k<5. ?first Airborne k)) \<and>
      (snd (attempt_takeoff drone) = None \<longleftrightarrow> (\<exists>k<5. ?first Forever k))"
    proof cases
      case none
      from exhausted [OF none] have "attempt_takeoff drone =
        (concat (map (\<lambda>k. fst (try_body (drone k)) @ [Sleep 1]) [0..<5]),
         Some (Inl RuntimeError))" "count_list (fst (attempt_takeoff drone)) Arm = 5"
        by blast+
      moreover from none have "\<not> (\<exists>k<5. ?first Airborne k)" "\<not> (\<exists>k<5. ?first Forever k)"
        by auto
      ultimately show ?thesis by simp
    next
      case (some k)
      from decided [OF some] have pair: "attempt_takeoff drone =
        (concat (map (\<lambda>j. fst (try_body (drone j)) @ [Sleep 1]) [0..<k]) @
           fst (try_body (drone k)), if ?w k = Airborne then Some (Inr ()) else None)"
        and count: "count_list (fst (attempt_takeoff drone)) Arm = k + 1"
        by blast+
      from pair have eq: "snd (attempt_takeoff drone) =
          (if ?w k = Airborne then Some (Inr ()) else None)"
        by simp
      have only: "k' = k" if "k' < 5" "?w k' \<noteq> Gave_up" "\<forall>j<k'. ?w j = Gave_up" for k'
        using unique [OF that some(2,3)] .
      have "(\<exists>k'<5. ?first Airborne k') \<longleftrightarrow> ?w k = Airborne"
      proof
        assume "\<exists>k'<5. ?first Airborne k'"
        then obtain k' where k': "k' < 5" "?first Airborne k'" by blast
        then have "k' = k" by (intro only) simp_all
        with k' show "?w k = Airborne" by simp
      next
        assume "?w k = Airborne"
        with some show "\<exists>k'<5. ?first Airborne k'" by blast
      qed
      moreover have "(\<exists>k'<5. ?first Forever k') \<longleftrightarrow> ?w k = Forever"
      proof
        assume "\<exists>k'<5. ?first Forever k'"
        then obtain k' where k': "k' < 5" "?first Forever k'" by blast
        then have "k' = k" by (intro only) simp_all
        with k' show "?w k = Forever" by simp
      next
        assume "?w k = Forever"
        with some show "\<exists>k'<5. ?first Forever k'" by blast
      qed
      ultimately show ?thesis
        using eq count some(1,2) by (cases "?w k") simp_all
    qed
    then show "count_list (fst (attempt_takeoff drone)) Arm \<le> 5"
      and "snd (attempt_takeoff drone) = Some (Inr ()) \<longleftrightarrow> (\<exists>k<5. ?first Airborne k)"
      and "snd (attempt_takeoff drone) = None \<longleftrightarrow> (\<exists>k<5. ?first Forever k)"
      by blast+
  qed
  from bound returns hangs exhausted airborne forever try_body_actions [of d]
    try_body_waited [of d] await_in_air_airborne [of s e] await_in_air_forever [of s e]
  show ?thesis by blast
qed

text \<open>
  A vehicle that never leaves the ground, one whose first \<^verbatim>\<open>arm\<close> raises and which is
  in the air at the second attempt, and one whose in-air stream falls silent.
\<close>

theorem attempt_takeoff_retries_witness:
  "attempt_takeoff never_airborne =
     ([Arm, StartMission, Sleep 1, Arm, StartMission, Sleep 1, Arm, StartMission, Sleep 1,
       Arm, StartMission, Sleep 1, Arm, StartMission, Sleep 1], Some (Inl RuntimeError)) \<and>
   count_list (fst (attempt_takeoff never_airborne)) Arm = 5 \<and>
   run landing_plan never_airborne [] = Inl RuntimeError \<and>
   attempt_takeoff arm_fails_once = ([Arm, Sleep 1, Arm, StartMission], Some (Inr ())) \<and>
   count_list (fst (attempt_takeoff arm_fails_once)) Arm = 2 \<and>
   attempt_takeoff silent_stream = ([Arm, StartMission], None)"
proof -
  have never: "\<forall>k<5. snd (try_body (never_airborne k)) = Gave_up"
    by (simp add: try_body_def never_airborne_def)
  have second: "(1::nat) < 5 \<and> snd (try_body (arm_fails_once 1)) = Airborne \<and>
      (\<forall>j<1. snd (try_body (arm_fails_once j)) = Gave_up)"
    by (simp add: try_body_def arm_fails_once_def)
  have silent: "(0::nat) < 5 \<and> snd (try_body (silent_stream 0)) = Forever \<and>
      (\<forall>j<0. snd (try_body (silent_stream j)) = Gave_up)"
    by (simp add: try_body_def silent_stream_def)
  note exhausted = attempt_takeoff_retries [of never_airborne, THEN conjunct2, THEN conjunct2,
      THEN conjunct2, THEN conjunct1, THEN mp, OF never]
  note airborne = attempt_takeoff_retries [of arm_fails_once, THEN conjunct2, THEN conjunct2,
      THEN conjunct2, THEN conjunct2, THEN conjunct1, THEN spec, THEN mp, THEN mp,
      OF conjunct1 [OF second] conjunct2 [OF second]]
  note forever = attempt_takeoff_retries [of silent_stream, THEN conjunct2, THEN conjunct2,
      THEN conjunct2, THEN conjunct2, THEN conjunct2, THEN conjunct1, THEN spec, THEN mp,
      THEN mp, OF conjunct1 [OF silent] conjunct2 [OF silent]]
  from exhausted have "count_list (fst (attempt_takeoff never_airborne)) Arm = 5"
    by (rule conjunct2 [THEN conjunct1])
  moreover from exhausted
  have "\<forall>f g evs. mission_loader f module_globals = Inr g \<longrightarrow>
      run f never_airborne evs = Inl RuntimeError"
    by (rule conjunct2 [THEN conjunct2])
  with landing_plan_loaded have "run landing_plan never_airborne [] = Inl RuntimeError"
    by blast
  moreover from airborne have "count_list (fst (attempt_takeoff arm_fails_once)) Arm = 1 + 1"
    by (rule conjunct2)
  moreover from forever have "attempt_takeoff silent_stream = ([Arm, StartMission], None)"
    by (simp add: try_body_def silent_stream_def)
  ultimately show ?thesis
    by (simp add: never_airborne_run arm_fails_once_run)
qed

text \<open>
  C4 as stated fails twice. The wait for the confirmation is not limited to one second:
  a first report, in the air, seen an hour after the start of the wait makes the attempt
  succeed. And a vehicle that never reports being in the air does not always lead to
  five attempts and the failure: after one report on the ground the stream is silent,
  and the first attempt never ends.
\<close>

theorem late_or_silent_counterexample:
  "in_air (airborne_after_an_hour 0) = [(3600, True)] \<and>
   attempt_takeoff airborne_after_an_hour = ([Arm, StartMission], Some (Inr ())) \<and>
   in_air (silent_stream 0) = [(1 / 2, False)] \<and>
   attempt_takeoff silent_stream = ([Arm, StartMission], None)"
  by (simp add: attempt_takeoff_def while_attempt.simps max_attempts_def try_body_def
      airborne_after_an_hour_def silent_stream_def)

subsection \<open>Writing a row\<close>

text \<open>
  C8, where the code departs from it. An accepted sample that arrives while
  \<^verbatim>\<open>current_lat\<close> or \<^verbatim>\<open>current_lon\<close> is still \<^verbatim>\<open>None\<close> makes
  \<^verbatim>\<open>round(current_lat, 7)\<close> raise \<^verbatim>\<open>TypeError\<close>: no row is written and the recorder
  task ends with the exception, although line 175 tests these globals for \<^verbatim>\<open>None\<close>
  and the altitude is guarded.
\<close>

theorem writerow_unknown_position_raises:
  assumes "current_lat g = None \<or> current_lon g = None"
    and "\<not> same_second st odom"
  shows "log_odometry g st odom =
           (Raised TypeError, st\<lparr>last_sim_time := Some (sim_time_s odom)\<rparr>, [])"
  using assms by (auto simp: log_odometry_def writerow_def Let_def split: option.splits)

text \<open>The first odometry sample is delivered before the first position sample.\<close>

theorem first_odometry_before_position:
  "current_lat module_globals = None \<and> \<not> same_second recorder_start (sample_at 5000000) \<and>
   log_odometry module_globals recorder_start (sample_at 5000000) =
     (Raised TypeError, \<lparr>a = 1, b = 0, c = 1, last_sim_time = Some 5\<rparr>, []) \<and>
   tasks module_globals [Odometry (sample_at 5000000), Position 1 2 3, Odometry (sample_at 6000000)] =
     \<lparr>state = Raised TypeError, shared = module_globals,
      locals = \<lparr>a = 1, b = 0, c = 1, last_sim_time = Some 5\<rparr>, csv = []\<rparr>"
  using writerow_unknown_position_raises [of module_globals recorder_start "sample_at 5000000"]
  by (simp add: module_globals_def recorder_start_def same_second_def sample_at_def
      sim_time_s_def tasks_def deliver_def)

text \<open>
  C10. A row composed while \<^verbatim>\<open>current_alt\<close> is exactly 0 has an empty \<^verbatim>\<open>Alt\<close> field,
  and \<^verbatim>\<open>Alt\<close> is filled in, with the altitude rounded to 3 decimals, exactly when the
  altitude is known and not zero.
\<close>

theorem alt_zero_logged_as_null:
  assumes "log_odometry g st odom = (s, st', out)" and "r \<in> set out"
  shows "(current_alt g = Some 0 \<longrightarrow> Alt r = None) \<and>
         (Alt r \<noteq> None \<longleftrightarrow> (\<exists>alt. current_alt g = Some alt \<and> alt \<noteq> 0)) \<and>
         (\<forall>alt. current_alt g = Some alt \<and> alt \<noteq> 0 \<longrightarrow> Alt r = Some (py_round alt 3))"
  using assms
  by (auto simp: log_odometry_def writerow_def Let_def split: option.splits if_splits)

text \<open>A vehicle at sea level: the row's \<^verbatim>\<open>Alt\<close> is empty.\<close>

theorem alt_zero_logged_as_null_witness:
  "log_odometry at_sea_level recorder_start (sample_at 5000000) =
     (Running, \<lparr>a = 1, b = 0, c = 1, last_sim_time = Some 5\<rparr>,
      [\<lparr>SimTime = 5, Lat = 1, Lon = 2, Alt = None, qw = 1, qx = 0, qy = 0, qz = 0,
        Vx = 0, Vy = 0, Vz = 0\<rparr>]) \<and>
   current_alt at_sea_level = Some 0 \<and>
   Alt \<lparr>SimTime = 5, Lat = 1, Lon = 2, Alt = None, qw = 1, qx = 0, qy = 0, qz = 0,
        Vx = 0, Vy = 0, Vz = 0\<rparr> = None"
proof -
  have run: "log_odometry at_sea_level recorder_start (sample_at 5000000) =
     (Running, \<lparr>a = 1, b = 0, c = 1, last_sim_time = Some 5\<rparr>,
      [\<lparr>SimTime = 5, Lat = 1, Lon = 2, Alt = None, qw = 1, qx = 0, qy = 0, qz = 0,
        Vx = 0, Vy = 0, Vz = 0\<rparr>])"
    by (simp add: log_odometry_def at_sea_level_def module_globals_def recorder_start_def
        same_second_def sample_at_def sim_time_s_def writerow_def landing_check_def
        py_round_def round_half_even_def)
  from alt_zero_logged_as_null [OF run, of "\<lparr>SimTime = 5, Lat = 1, Lon = 2, Alt = None, qw = 1, qx = 0, qy = 0, qz = 0,
        Vx = 0, Vy = 0, Vz = 0\<rparr>"] run
  show ?thesis by (simp add: at_sea_level_def)
qed

subsection \<open>Rounding to a double\<close>

lemma bitlen_between:
  assumes "(2::int) ^ (52 + k) \<le> n" and "n < 2 ^ (53 + k)"
  shows "bitlen n = int (53 + k)"
proof (rule antisym)
  from assms(2) show "bitlen n \<le> int (53 + k)"
    by (simp add: bitlen_le_iff_power nat_add_distrib)
  from assms(1) show "int (53 + k) \<le> bitlen n"
    by (simp add: bitlen_ge_iff_power nat_add_distrib)
qed

lemma ulp_exponent_eq:
  assumes "2 ^ (52 + k) \<le> \<bar>x\<bar> * 2 ^ 1074" and "\<bar>x\<bar> * 2 ^ 1074 < 2 ^ (53 + k)"
  shows "ulp_exponent x = k"
proof -
  from assms(1) have "(2::int) ^ (52 + k) \<le> \<lfloor>\<bar>x\<bar> * 2 ^ 1074\<rfloor>"
    unfolding le_floor_iff by simp
  moreover from assms(2) have "\<lfloor>\<bar>x\<bar> * 2 ^ 1074\<rfloor> < 2 ^ (53 + k)"
    unfolding floor_less_iff by simp
  ultimately have "bitlen \<lfloor>\<bar>x\<bar> * 2 ^ 1074\<rfloor> = int (53 + k)"
    by (rule bitlen_between)
  then show ?thesis
    unfolding ulp_exponent_def by simp
qed

text \<open>
  In the binade \<open>[2 ^ (52 + k), 2 ^ (53 + k))\<close>, counted in units of \<open>2 ^ -1074\<close>, the
  doubles are the multiples of \<open>2 ^ k\<close>.
\<close>

lemma fl_eval:
  assumes "2 ^ (52 + k) \<le> \<bar>x\<bar> * 2 ^ 1074" and "\<bar>x\<bar> * 2 ^ 1074 < 2 ^ (53 + k)"
  shows "fl x = of_int (round_half_even (x * 2 ^ 1074 / 2 ^ k)) * 2 ^ k / 2 ^ 1074"
  by (simp add: fl_def ulp_exponent_eq [OF assms])

lemma fl_zero: "fl 0 = 0"
  by (simp add: fl_def round_half_even_def)

lemma fl_hundredth: "fl (1 / 100) = 5764607523034235 / 576460752303423488"
  by (subst fl_eval [where k = 1015]) (simp_all add: round_half_even_def)

lemma fl_half: "fl (1 / 2) = 1 / 2"
  by (subst fl_eval [where k = 1021]) (simp_all add: round_half_even_def)

lemma fl_quarter: "fl (1 / 4) = 1 / 4"
  by (subst fl_eval [where k = 1020]) (simp_all add: round_half_even_def)

lemma fl_100_25: "fl (401 / 4) = 401 / 4"
  by (subst fl_eval [where k = 1028]) (simp_all add: round_half_even_def)

text \<open>100.8 and 0.3 as Python reads them, and the two subtractions of line 177 on them.\<close>

lemma d_100_8: "fl (1008 / 10) = d_100_8"
  unfolding d_100_8_def
  by (subst fl_eval [where k = 1028]) (simp_all add: round_half_even_def)

lemma d_0_3: "fl (3 / 10) = d_0_3"
  unfolding d_0_3_def
  by (subst fl_eval [where k = 1020]) (simp_all add: round_half_even_def)

lemma fl_100_8_minus_0_3: "fl (d_100_8 - d_0_3) = 201 / 2"
  unfolding d_100_8_def d_0_3_def
  by (subst fl_eval [where k = 1028]) (simp_all add: round_half_even_def)

lemma fl_100_5_minus_100: "fl (201 / 2 - 100) = 1 / 2"
  by (simp add: fl_half)

lemma exactly_within_half: "\<bar>d_100_8 - (d_0_3 + 100)\<bar> < 1 / 2"
  by (simp add: d_100_8_def d_0_3_def)

subsection \<open>Landing detection\<close>

lemma tasks_Nil: "tasks g [] = \<lparr>state = Running, shared = g, locals = recorder_start, csv = []\<rparr>"
  by (simp add: tasks_def)

lemma tasks_snoc: "tasks g (evs @ [ev]) = deliver (tasks g evs) ev"
  by (simp add: tasks_def)

lemma deliver_stopped: "state cfg \<noteq> Running \<Longrightarrow> deliver cfg ev = cfg"
  by (simp add: deliver_def)

lemma settle_condition_raises: "settle_condition g st lat lon alt = Inl e \<Longrightarrow> b st = 0"
  by (simp add: settle_condition_def split: if_splits)

lemma settle_condition_true:
  "settle_condition g st lat lon alt = Inr True \<Longrightarrow> b st = 0 \<and> umbral_espera < a st"
  by (auto simp: settle_condition_def raising_def minus_global_def split: if_splits option.splits)

lemma landing_check_settled_ok:
  assumes "settled_ok Running st"
  shows "settled_ok (fst (landing_check g st)) (snd (landing_check g st))"
proof (cases "\<exists>lat lon alt ialt. current_lat g = Some lat \<and> current_lon g = Some lon \<and>
    current_alt g = Some alt \<and> inic_alt g = Some ialt")
  case False
  then have "landing_check g st = (Running, st)"
    by (auto simp: landing_check_def split: option.splits)
  with assms show ?thesis by simp
next
  case True
  then obtain lat lon alt ialt where known: "current_lat g = Some lat" "current_lon g = Some lon"
    "current_alt g = Some alt" "inic_alt g = Some ialt" by blast
  let ?st1 = "st\<lparr>a := a st + 1\<rparr>"
  show ?thesis
  proof (cases "settle_condition g ?st1 lat lon alt")
    case (Inl e)
    from settle_condition_raises [OF Inl] have "b st = 0" by simp
    with Inl known assms show ?thesis
      by (simp add: landing_check_def Let_def settled_ok_def)
  next
    case (Inr settle)
    show ?thesis
    proof (cases settle)
      case True
      with Inr settle_condition_true [of g ?st1 lat lon alt] have "b st = 0" "umbral_espera < a st + 1"
        by simp_all
      with Inr True known assms show ?thesis
        by (simp add: landing_check_def Let_def settled_ok_def umbral_espera_def)
    next
      case False
      with Inr known assms show ?thesis
        by (auto simp: landing_check_def Let_def settled_ok_def umbral_espera_def)
    qed
  qed
qed

lemma log_odometry_settled_ok:
  assumes "settled_ok Running st"
  shows "settled_ok (fst (log_odometry g st odom)) (fst (snd (log_odometry g st odom)))"
proof -
  let ?st0 = "st\<lparr>last_sim_time := Some (sim_time_s odom)\<rparr>"
  from assms have st0: "settled_ok Running ?st0" by (simp add: settled_ok_def)
  have raised: "settled_ok (Raised e) ?st0" for e
    using assms by (simp add: settled_ok_def)
  from landing_check_settled_ok [OF st0, of g] raised assms show ?thesis
    by (simp add: log_odometry_def Let_def split: sum.splits)
qed

lemma settled_ok_stopped: "settled_ok Running st \<Longrightarrow> s \<noteq> Running \<Longrightarrow> settled_ok s st"
  by (simp add: settled_ok_def)

lemma settled_ok_any: "settled_ok s st \<Longrightarrow> s \<noteq> Running \<Longrightarrow> settled_ok s' st \<or> s' = Running"
  by (auto simp: settled_ok_def)

lemma deliver_settled_ok:
  assumes "settled_ok (state cfg) (locals cfg)"
  shows "settled_ok (state (deliver cfg ev)) (locals (deliver cfg ev))"
proof (cases "state cfg = Running")
  case False
  with assms show ?thesis by (simp add: deliver_stopped)
next
  case True
  with assms have ok: "settled_ok Running (locals cfg)" by simp
  show ?thesis
  proof (cases ev)
    case (Position lat lon alt)
    with True ok show ?thesis by (simp add: deliver_def)
  next
    case (Odometry odom)
    with True log_odometry_settled_ok [OF ok, of "shared cfg" odom] show ?thesis
      by (simp add: deliver_def Let_def)
  next
    case Position_end
    with True ok show ?thesis by (simp add: deliver_def settled_ok_stopped)
  next
    case Odometry_end
    with True ok show ?thesis by (simp add: deliver_def settled_ok_stopped)
  qed
qed

lemma tasks_settled_ok: "settled_ok (state (tasks g evs)) (locals (tasks g evs))"
proof (induction evs rule: rev_induct)
  case Nil
  show ?case by (simp add: tasks_Nil settled_ok_def recorder_start_def)
next
  case (snoc ev evs)
  then show ?case by (simp add: tasks_snoc deliver_settled_ok)
qed

lemma landing_check_known:
  assumes "current_lat g = Some lat" "current_lon g = Some lon" "current_alt g = Some alt"
    "inic_alt g = Some ialt" "last_lat g = Some elat" "last_lon g = Some elon"
    "last_alt g = Some ealt" "b st = 0"
  shows "landing_check g st =
     (if umbral_espera < a st + 1 \<and> \<bar>fl (lat - elat)\<bar> < fl 0.01 \<and>
          \<bar>fl (lon - elon)\<bar> < fl 0.01 \<and> \<bar>fl (fl (alt - ealt) - ialt)\<bar> < fl 0.5
      then (Running, st\<lparr>a := a st + 1, b := 1, c := a st + 1\<rparr>)
      else (Running, st\<lparr>a := a st + 1\<rparr>))"
  using assms
  by (simp add: landing_check_def settle_condition_def raising_def minus_global_def Let_def
      umbral_espera_def)

text \<open>Evaluating a run on concrete samples unfolds all of these.\<close>

lemmas run_defs = forty_seconds_def tasks_def seconds.simps deliver_def log_gps_def loaded_def landed_def module_globals_def
     recorder_start_def log_odometry_def same_second_def sample_at_def sim_time_s_def
     py_round_def round_half_even_def writerow_def
     landing_check_def settle_condition_def raising_def minus_global_def umbral_espera_def Let_def
     fl_zero fl_hundredth fl_half fl_quarter fl_100_25

lemma landed_run:
  "state (tasks loaded forty_seconds) = Running \<and>
   shared (tasks loaded forty_seconds) = landed \<and>
   locals (tasks loaded forty_seconds) =
     \<lparr>a = 41, b = 1, c = 21, last_sim_time = Some 40\<rparr>"
  by (simp add: run_defs)

lemma settle_step:
  assumes "current_lat g = Some lat" and "current_lon g = Some lon"
    and "current_alt g = Some alt" and "inic_alt g = Some ialt"
    and "last_lat g = Some elat" and "last_lon g = Some elon" and "last_alt g = Some ealt"
    and "\<not> same_second st odom"
    and "b st = 0"
    and "st' = fst (snd (log_odometry g st odom))"
  shows "a st' = a st + 1 \<and>
         (b st' = 1 \<longleftrightarrow>
            20 < a st' \<and> \<bar>fl (lat - elat)\<bar> < fl 0.01 \<and> \<bar>fl (lon - elon)\<bar> < fl 0.01 \<and>
            \<bar>fl (fl (alt - ealt) - ialt)\<bar> < fl 0.5) \<and>
         (b st' = 1 \<longrightarrow> c st' = a st') \<and>
         (b st' \<noteq> 1 \<longrightarrow> b st' = 0 \<and> c st' = c st)"
proof -
  let ?st0 = "st\<lparr>last_sim_time := Some (sim_time_s odom)\<rparr>"
  from assms(1,2) obtain r where "writerow g odom = Inr r"
    by (simp add: writerow_def)
  with assms(8,10) have st': "st' = snd (landing_check g ?st0)"
    by (simp add: log_odometry_def Let_def)
  from assms(9) have "b ?st0 = 0" by simp
  note lc = landing_check_known [OF assms(1-7) this]
  from assms(9) show ?thesis
    by (simp add: st' lc umbral_espera_def)
qed

lemma mission_loader_complete:
  assumes "mission_loader f module_globals = Inr g" and "inic_alt g \<noteq> None"
  shows "last_lat g \<noteq> None \<and> last_lon g \<noteq> None \<and> last_alt g \<noteq> None"
proof -
  from assms(1) obtain mission_items home where
    "expected_end mission_items home module_globals = Inr g"
    by (auto simp: mission_loader_def split: sum.splits prod.splits)
  with assms(2) show ?thesis
    by (auto simp: expected_end_def raising_def getitem_def Let_def module_globals_def
        split: if_splits option.splits)
qed

lemma deliver_mission_globals:
  "last_lat (shared (deliver cfg ev)) = last_lat (shared cfg) \<and>
   last_lon (shared (deliver cfg ev)) = last_lon (shared cfg) \<and>
   last_alt (shared (deliver cfg ev)) = last_alt (shared cfg) \<and>
   inic_alt (shared (deliver cfg ev)) = inic_alt (shared cfg)"
  by (cases ev) (simp_all add: deliver_def log_gps_def Let_def)

lemma tasks_mission_globals:
  "last_lat (shared (tasks g evs)) = last_lat g \<and>
   last_lon (shared (tasks g evs)) = last_lon g \<and>
   last_alt (shared (tasks g evs)) = last_alt g \<and>
   inic_alt (shared (tasks g evs)) = inic_alt g"
proof (induction evs rule: rev_induct)
  case Nil
  show ?case by (simp add: tasks_Nil)
next
  case (snoc ev evs)
  with deliver_mission_globals [of "tasks g evs" ev] show ?case
    by (simp add: tasks_snoc)
qed

lemma landing_plan_low_loaded: "mission_loader landing_plan_low module_globals = Inr loaded_low"
  by (simp add: mission_loader_def read_mission_def expected_end_def landing_plan_low_def
      loaded_low_def getitem_def raising_def)

text \<open>
  C1, as the code has it. In a run that starts from the globals the mission loader has
  set: when an accepted odometry sample is processed while \<^verbatim>\<open>current_lat\<close>,
  \<^verbatim>\<open>current_lon\<close>, \<^verbatim>\<open>current_alt\<close> and \<^verbatim>\<open>inic_alt\<close> are known and \<^verbatim>\<open>b\<close> is still 0,
  the expected end position is known as well, the sample count \<^verbatim>\<open>a\<close> is incremented,
  and \<^verbatim>\<open>b\<close> becomes 1 exactly when the incremented count exceeds 20 and the three
  differences of line 177, each subtraction rounded to a double, are below the doubles
  0.01, 0.01 and 0.5 in absolute value: \<^verbatim>\<open>current_lat - last_lat\<close>,
  \<^verbatim>\<open>current_lon - last_lon\<close>, and \<^verbatim>\<open>current_alt - last_alt - inic_alt\<close>, computed from
  the left. \<^verbatim>\<open>c\<close> then records the count. In every state of the run, \<^verbatim>\<open>b = 1\<close>
  implies that the count exceeds 20.
\<close>

theorem settle_transition:
  assumes "mission_loader f module_globals = Inr g0"
    and "cfg = tasks g0 evs" and "cfg' = tasks g0 (evs @ [Odometry odom])"
    and "state cfg = Running"
    and "current_lat (shared cfg) = Some lat" and "current_lon (shared cfg) = Some lon"
    and "current_alt (shared cfg) = Some alt" and "inic_alt (shared cfg) = Some ialt"
    and "\<not> same_second (locals cfg) odom"
    and "b (locals cfg) = 0"
  shows "\<exists>elat elon ealt.
           last_lat g0 = Some elat \<and> last_lon g0 = Some elon \<and> last_alt g0 = Some ealt \<and>
           a (locals cfg') = a (locals cfg) + 1 \<and>
           (b (locals cfg') = 1 \<longleftrightarrow>
              20 < a (locals cfg') \<and> \<bar>fl (lat - elat)\<bar> < fl 0.01 \<and>
              \<bar>fl (lon - elon)\<bar> < fl 0.01 \<and> \<bar>fl (fl (alt - ealt) - ialt)\<bar> < fl 0.5) \<and>
           (b (locals cfg') = 1 \<longrightarrow> c (locals cfg') = a (locals cfg')) \<and>
           (b (locals cfg') \<noteq> 1 \<longrightarrow> b (locals cfg') = 0 \<and> c (locals cfg') = c (locals cfg)) \<and>
           (\<forall>evs'. b (locals (tasks g0 evs')) = 1 \<longrightarrow> 20 < a (locals (tasks g0 evs')))"
proof -
  from tasks_mission_globals [of g0 evs] assms(2)
  have same: "last_lat (shared cfg) = last_lat g0" "last_lon (shared cfg) = last_lon g0"
    "last_alt (shared cfg) = last_alt g0" "inic_alt (shared cfg) = inic_alt g0"
    by simp_all
  with assms(8) have "inic_alt g0 \<noteq> None" by simp
  from mission_loader_complete [OF assms(1) this]
  obtain elat elon ealt where expected: "last_lat g0 = Some elat" "last_lon g0 = Some elon"
    "last_alt g0 = Some ealt" by auto
  with same have known: "last_lat (shared cfg) = Some elat" "last_lon (shared cfg) = Some elon"
    "last_alt (shared cfg) = Some ealt" by simp_all
  from assms(2,3,4)
  have "locals cfg' = fst (snd (log_odometry (shared cfg) (locals cfg) odom))"
    by (simp add: tasks_snoc deliver_def Let_def)
  note step = settle_step [OF assms(5-8) known assms(9,10) this]
  have "\<forall>evs'. b (locals (tasks g0 evs')) = 1 \<longrightarrow> 20 < a (locals (tasks g0 evs'))"
  proof (intro allI)
    fix evs'
    from tasks_settled_ok [of g0 evs']
    show "b (locals (tasks g0 evs')) = 1 \<longrightarrow> 20 < a (locals (tasks g0 evs'))"
      by (auto simp: settled_ok_def umbral_espera_def)
  qed
  with step expected show ?thesis by blast
qed

text \<open>
  On the ground at the landing site, after the plan that ends in a landing there: the
  sample of second 20 (count 21) settles, the sample of second 19 (count 20) does not,
  however close the vehicle is.
\<close>

lemma nineteen_run:
  "state (tasks loaded nineteen_seconds) = Running \<and>
   shared (tasks loaded nineteen_seconds) = landed \<and>
   locals (tasks loaded nineteen_seconds) =
     \<lparr>a = 20, b = 0, c = 1, last_sim_time = Some 19\<rparr>"
  by (simp add: nineteen_seconds_def run_defs)

theorem settle_transition_witness:
  "a (locals (tasks loaded nineteen_seconds)) = 20 \<and>
   b (locals (tasks loaded nineteen_seconds)) = 0 \<and>
   a (locals (tasks loaded (nineteen_seconds @ [Odometry (sample_at 20000000)]))) = 21 \<and>
   b (locals (tasks loaded (nineteen_seconds @ [Odometry (sample_at 20000000)]))) = 1 \<and>
   c (locals (tasks loaded (nineteen_seconds @ [Odometry (sample_at 20000000)]))) = 21 \<and>
   b (locals (tasks loaded forty_seconds)) = 1 \<and>
   20 < a (locals (tasks loaded forty_seconds))"
proof -
  let ?cfg = "tasks loaded nineteen_seconds"
  let ?cfg' = "tasks loaded (nineteen_seconds @ [Odometry (sample_at 20000000)])"
  from nineteen_run have cfg: "state ?cfg = Running" "shared ?cfg = landed"
    "locals ?cfg = \<lparr>a = 20, b = 0, c = 1, last_sim_time = Some 19\<rparr>"
    by blast+
  have known: "current_lat (shared ?cfg) = Some 11" "current_lon (shared ?cfg) = Some 21"
    "current_alt (shared ?cfg) = Some (601 / 4)" "inic_alt (shared ?cfg) = Some 100"
    by (simp_all only: cfg) (simp_all add: landed_def loaded_def module_globals_def)
  have accepted: "\<not> same_second (locals ?cfg) (sample_at 20000000)"
    by (simp add: cfg same_second_def sample_at_def sim_time_s_def py_round_def
        round_half_even_def)
  have unsettled: "b (locals ?cfg) = 0"
    by (simp add: cfg)
  from settle_transition [OF landing_plan_loaded refl refl cfg(1) known accepted unsettled]
  obtain elat elon ealt where expected: "last_lat loaded = Some elat"
    "last_lon loaded = Some elon" "last_alt loaded = Some ealt"
    and count: "a (locals ?cfg') = a (locals ?cfg) + 1"
    and settles: "b (locals ?cfg') = 1 \<longleftrightarrow>
              20 < a (locals ?cfg') \<and> \<bar>fl (11 - elat)\<bar> < fl 0.01 \<and>
              \<bar>fl (21 - elon)\<bar> < fl 0.01 \<and> \<bar>fl (fl (601 / 4 - ealt) - 100)\<bar> < fl 0.5"
    and records: "b (locals ?cfg') = 1 \<longrightarrow> c (locals ?cfg') = a (locals ?cfg')"
    and never: "\<forall>evs'. b (locals (tasks loaded evs')) = 1 \<longrightarrow>
        20 < a (locals (tasks loaded evs'))"
    by blast
  from expected have "elat = 11" "elon = 21" "ealt = 50"
    by (simp_all add: loaded_def module_globals_def)
  with count settles cfg(3) have "a (locals ?cfg') = 21" "b (locals ?cfg') = 1"
    by (simp_all add: fl_zero fl_hundredth fl_half fl_quarter fl_100_25)
  moreover from this records have "c (locals ?cfg') = 21" by simp
  moreover from landed_run have "b (locals (tasks loaded forty_seconds)) = 1" by simp
  moreover from this never have "20 < a (locals (tasks loaded forty_seconds))" by blast
  ultimately show ?thesis using cfg(3) by simp
qed

text \<open>
  C1 as stated, with the distance taken between the altitude and the sum of the expected
  end altitude and \<^verbatim>\<open>inic_alt\<close>, fails at the boundary. The plan ends in a landing at
  altitude 0.3 with home altitude 100, and the vehicle stays at (11, 21) at altitude
  100.8. The altitude is within 0.5 m of 0.3 + 100, and the twentieth row brings the count
  to 21, but \<^verbatim>\<open>100.8 - 0.3\<close> is the double 100.5 and \<^verbatim>\<open>100.5 - 100\<close> is 0.5, which is
  not below 0.5: \<^verbatim>\<open>b\<close> stays 0.
\<close>

lemma twenty_low_run:
  "state (tasks loaded_low twenty_seconds_low) = Running \<and>
   locals (tasks loaded_low twenty_seconds_low) =
     \<lparr>a = 21, b = 0, c = 1, last_sim_time = Some 20\<rparr>"
  by (simp add: twenty_seconds_low_def loaded_low_def tasks_def seconds.simps deliver_def
      log_gps_def module_globals_def recorder_start_def log_odometry_def same_second_def
      sample_at_def sim_time_s_def py_round_def round_half_even_def writerow_def
      landing_check_def settle_condition_def raising_def minus_global_def umbral_espera_def
      Let_def fl_zero fl_hundredth fl_half fl_100_8_minus_0_3)

theorem settle_boundary_counterexample:
  "mission_loader landing_plan_low module_globals = Inr loaded_low \<and>
   last_lat loaded_low = Some 11 \<and> last_lon loaded_low = Some 21 \<and>
   last_alt loaded_low = Some (fl (3 / 10)) \<and> inic_alt loaded_low = Some 100 \<and>
   twenty_seconds_low = Position 11 21 (fl (1008 / 10)) # seconds 1 21 \<and>
   state (tasks loaded_low twenty_seconds_low) = Running \<and>
   a (locals (tasks loaded_low twenty_seconds_low)) = 21 \<and>
   \<bar>11 - 11 :: real\<bar> < 0.01 \<and> \<bar>21 - 21 :: real\<bar> < 0.01 \<and>
   \<bar>fl (1008 / 10) - (fl (3 / 10) + 100)\<bar> < 0.5 \<and>
   b (locals (tasks loaded_low twenty_seconds_low)) = 0"
proof -
  have "last_lat loaded_low = Some 11" "last_lon loaded_low = Some 21"
    "last_alt loaded_low = Some (fl (3 / 10))" "inic_alt loaded_low = Some 100"
    unfolding d_0_3 by (simp_all add: loaded_low_def)
  moreover have "twenty_seconds_low = Position 11 21 (fl (1008 / 10)) # seconds 1 21"
    unfolding d_100_8 by (simp add: twenty_seconds_low_def)
  moreover have "\<bar>fl (1008 / 10) - (fl (3 / 10) + 100)\<bar> < 0.5"
    unfolding d_100_8 d_0_3 using exactly_within_half by simp
  ultimately show ?thesis
    using landing_plan_low_loaded twenty_low_run by simp
qed

lemma landing_check_latch: "b st = 1 \<Longrightarrow> b (snd (landing_check g st)) = 1"
  by (auto simp: landing_check_def settle_condition_def Let_def
      split: option.splits sum.splits)

lemma log_odometry_latch: "b st = 1 \<Longrightarrow> b (fst (snd (log_odometry g st odom))) = 1"
  by (simp add: log_odometry_def Let_def landing_check_latch split: sum.splits)

lemma deliver_latch: "b (locals cfg) = 1 \<Longrightarrow> b (locals (deliver cfg ev)) = 1"
  by (simp add: deliver_def Let_def log_odometry_latch split: event.splits)

lemma tasks_append: "tasks g (evs @ later) = foldl deliver (tasks g evs) later"
  by (simp add: tasks_def)

lemma foldl_deliver_latch: "b (locals cfg) = 1 \<Longrightarrow> b (locals (foldl deliver cfg later)) = 1"
  by (induction later arbitrary: cfg) (simp_all add: deliver_latch)

lemma foldl_deliver_stopped: "state cfg \<noteq> Running \<Longrightarrow> foldl deliver cfg later = cfg"
  by (induction later arbitrary: cfg) (simp_all add: deliver_stopped)

lemma log_odometry_same_second: "same_second st odom \<Longrightarrow> log_odometry g st odom = (Running, st, [])"
  by (simp add: log_odometry_def)

lemma log_odometry_abc_unless_checked:
  assumes "\<not> same_second st odom" and "writerow g odom = Inl e"
  shows "log_odometry g st odom = (Raised e, st\<lparr>last_sim_time := Some (sim_time_s odom)\<rparr>, [])"
  using assms by (simp add: log_odometry_def Let_def)

lemma landing_check_returned_iff:
  "fst (landing_check g st) = Returned \<longleftrightarrow>
     fst (landing_check g st) \<noteq> Running \<and>
     b (snd (landing_check g st)) = 1 \<and>
     umbral_espera < a (snd (landing_check g st)) - c (snd (landing_check g st))"
proof (cases "\<exists>lat lon alt ialt. current_lat g = Some lat \<and> current_lon g = Some lon \<and>
    current_alt g = Some alt \<and> inic_alt g = Some ialt")
  case False
  then have "landing_check g st = (Running, st)"
    by (auto simp: landing_check_def split: option.splits)
  then show ?thesis by simp
next
  case True
  then obtain lat lon alt ialt where known: "current_lat g = Some lat" "current_lon g = Some lon"
    "current_alt g = Some alt" "inic_alt g = Some ialt" by blast
  show ?thesis
  proof (cases "settle_condition g (st\<lparr>a := a st + 1\<rparr>) lat lon alt")
    case (Inl e)
    from settle_condition_raises [OF Inl] Inl known show ?thesis
      by (simp add: landing_check_def Let_def)
  next
    case (Inr settle)
    with known show ?thesis
      by (simp add: landing_check_def Let_def)
  qed
qed

text \<open>
  C2, as the code has it. Once \<^verbatim>\<open>b\<close> is 1 it stays 1 whatever is delivered later.
  While the recorder runs, the next event makes it return exactly when the odometry
  stream ends there, or when the event is an accepted odometry sample after which
  \<^verbatim>\<open>b = 1\<close> and \<^verbatim>\<open>a - c > 20\<close>; so, while the stream goes on, the recorder returns at
  the first such sample and in no other way. Once the recorder has returned, raised or
  been cancelled, nothing changes any more.
\<close>

theorem settled_latches_and_returns:
  "(b (locals (tasks g evs)) = 1 \<longrightarrow> b (locals (tasks g (evs @ later))) = 1) \<and>
   (state (tasks g evs) = Running \<longrightarrow>
      (state (tasks g (evs @ [ev])) = Returned \<longleftrightarrow>
         ev = Odometry_end \<or>
         (\<exists>odom. ev = Odometry odom \<and> \<not> same_second (locals (tasks g evs)) odom) \<and>
         b (locals (tasks g (evs @ [ev]))) = 1 \<and>
         20 < a (locals (tasks g (evs @ [ev]))) - c (locals (tasks g (evs @ [ev]))))) \<and>
   (state (tasks g evs) \<noteq> Running \<longrightarrow> tasks g (evs @ later) = tasks g evs)"
proof (intro conjI impI)
  assume "b (locals (tasks g evs)) = 1"
  then show "b (locals (tasks g (evs @ later))) = 1"
    by (simp add: tasks_append foldl_deliver_latch)
next
  assume "state (tasks g evs) \<noteq> Running"
  then show "tasks g (evs @ later) = tasks g evs"
    by (simp add: tasks_append foldl_deliver_stopped)
next
  let ?cfg = "tasks g evs"
  let ?cfg' = "tasks g (evs @ [ev])"
  let ?rhs = "ev = Odometry_end \<or>
         (\<exists>odom. ev = Odometry odom \<and> \<not> same_second (locals ?cfg) odom) \<and>
         b (locals ?cfg') = 1 \<and> 20 < a (locals ?cfg') - c (locals ?cfg')"
  assume running: "state ?cfg = Running"
  from tasks_settled_ok [of g evs] running
  have before: "\<not> (b (locals ?cfg) = 1 \<and> 20 < a (locals ?cfg) - c (locals ?cfg))"
    by (simp add: settled_ok_def umbral_espera_def)
  show "state ?cfg' = Returned \<longleftrightarrow> ?rhs"
  proof (cases ev)
    case (Position lat lon alt)
    with running show ?thesis by (simp add: tasks_snoc deliver_def)
  next
    case Position_end
    with running show ?thesis by (simp add: tasks_snoc deliver_def)
  next
    case Odometry_end
    with running show ?thesis by (simp add: tasks_snoc deliver_def)
  next
    case (Odometry odom)
    show ?thesis
    proof (cases "same_second (locals ?cfg) odom")
      case True
      with running Odometry show ?thesis
        by (simp add: tasks_snoc deliver_def Let_def log_odometry_same_second)
    next
      case False
      show ?thesis
      proof (cases "writerow (shared ?cfg) odom")
        case (Inl e)
        with running Odometry False before show ?thesis
          by (simp add: tasks_snoc deliver_def Let_def log_odometry_abc_unless_checked)
      next
        case (Inr r)
        let ?st0 = "(locals ?cfg)\<lparr>last_sim_time := Some (sim_time_s odom)\<rparr>"
        from Inr False have lo: "log_odometry (shared ?cfg) (locals ?cfg) odom =
            (fst (landing_check (shared ?cfg) ?st0), snd (landing_check (shared ?cfg) ?st0), [r])"
          by (simp add: log_odometry_def Let_def)
        have cfg': "state ?cfg' = fst (landing_check (shared ?cfg) ?st0)"
          "locals ?cfg' = snd (landing_check (shared ?cfg) ?st0)"
          using running Odometry lo by (simp_all add: tasks_snoc deliver_def Let_def)
        from landing_check_returned_iff [of "shared ?cfg" ?st0] cfg'
        have iff: "state ?cfg' = Returned \<longleftrightarrow>
            state ?cfg' \<noteq> Running \<and> b (locals ?cfg') = 1 \<and>
            20 < a (locals ?cfg') - c (locals ?cfg')"
          by (simp add: umbral_espera_def)
        have settled': "settled_ok (state ?cfg') (locals ?cfg')"
          by (rule tasks_settled_ok)
        then have "b (locals ?cfg') = 1 \<and> 20 < a (locals ?cfg') - c (locals ?cfg') \<Longrightarrow>
            state ?cfg' \<noteq> Running"
          by (auto simp: settled_ok_def umbral_espera_def)
        with iff Odometry False show ?thesis by auto
      qed
    qed
  qed
qed

text \<open>
  Forty seconds on the ground: settled at count 21, still running at count 41. The next
  odometry sample makes the recorder return (count 42); a position far away instead
  leaves \<^verbatim>\<open>b\<close> set.
\<close>

lemma forty_one_run:
  "log_odometry landed \<lparr>a = 41, b = 1, c = 21, last_sim_time = Some 40\<rparr>
      (sample_at 41000000) =
      (Returned, \<lparr>a = 42, b = 1, c = 21, last_sim_time = Some 41\<rparr>,
       [\<lparr>SimTime = 41, Lat = 11, Lon = 21, Alt = Some (601 / 4), qw = 1, qx = 0, qy = 0,
         qz = 0, Vx = 0, Vy = 0, Vz = 0\<rparr>])"
  by (simp add: log_odometry_def same_second_def sample_at_def
      sim_time_s_def py_round_def round_half_even_def writerow_def landed_def loaded_def
      module_globals_def landing_check_def settle_condition_def umbral_espera_def Let_def)

lemma landed_returns:
  "state (tasks loaded (forty_seconds @ [Odometry (sample_at 41000000)])) = Returned \<and>
   locals (tasks loaded (forty_seconds @ [Odometry (sample_at 41000000)])) =
       \<lparr>a = 42, b = 1, c = 21, last_sim_time = Some 41\<rparr>"
proof -
  from landed_run have cfg: "state (tasks loaded forty_seconds) = Running"
    "shared (tasks loaded forty_seconds) = landed"
    "locals (tasks loaded forty_seconds) = \<lparr>a = 41, b = 1, c = 21, last_sim_time = Some 40\<rparr>"
    by blast+
  show ?thesis
    unfolding tasks_snoc by (simp add: deliver_def cfg forty_one_run)
qed

theorem settled_latches_and_returns_witness:
  "state (tasks loaded forty_seconds) = Running \<and>
   b (locals (tasks loaded forty_seconds)) = 1 \<and>
   state (tasks loaded (forty_seconds @
            [Odometry (sample_at 41000000)])) = Returned \<and>
   a (locals (tasks loaded (forty_seconds @
            [Odometry (sample_at 41000000)]))) = 42 \<and>
   c (locals (tasks loaded (forty_seconds @
            [Odometry (sample_at 41000000)]))) = 21 \<and>
   b (locals (tasks loaded (forty_seconds @
            [Position 0 0 0]))) = 1 \<and>
   state (tasks loaded (forty_seconds @
            [Position 0 0 0])) = Running"
proof -
  let ?evs = "forty_seconds"
  let ?cfg = "tasks loaded ?evs"
  note inst = settled_latches_and_returns [of loaded ?evs "[Position 0 0 0]"
      "Odometry (sample_at 41000000)"]
  from landed_run have cfg: "state ?cfg = Running" "shared ?cfg = landed"
    "locals ?cfg = \<lparr>a = 41, b = 1, c = 21, last_sim_time = Some 40\<rparr>"
    by blast+
  from landed_returns
  have step: "state (tasks loaded (?evs @ [Odometry (sample_at 41000000)])) = Returned"
    "locals (tasks loaded (?evs @ [Odometry (sample_at 41000000)])) =
       \<lparr>a = 42, b = 1, c = 21, last_sim_time = Some 41\<rparr>"
    by blast+
  have away: "state (tasks loaded (?evs @ [Position 0 0 0])) = Running"
    unfolding tasks_snoc by (simp add: deliver_def cfg)
  from inst cfg have drift: "b (locals (tasks loaded (?evs @ [Position 0 0 0]))) = 1"
    by simp
  from cfg step away drift show ?thesis by simp
qed

text \<open>
  C2 as stated fails in its last part: the return at the second threshold is not the
  recorder's only normal termination. When the odometry stream ends after one row, the
  \<^verbatim>\<open>async for\<close> is left and \<^verbatim>\<open>log_odometry\<close> returns with \<^verbatim>\<open>b = 0\<close>.
\<close>

lemma one_row_running:
  "state (tasks module_globals one_row) = Running \<and>
   locals (tasks module_globals one_row) =
     \<lparr>a = 1, b = 0, c = 1, last_sim_time = Some 5\<rparr>"
  by (simp add: one_row_def tasks_def deliver_def log_gps_def module_globals_def
      recorder_start_def log_odometry_def same_second_def sample_at_def sim_time_s_def
      writerow_def landing_check_def Let_def)

theorem stream_end_counterexample:
  "state (tasks module_globals one_row) = Running \<and>
   state (tasks module_globals (one_row @ [Odometry_end])) = Returned \<and>
   b (locals (tasks module_globals (one_row @ [Odometry_end]))) = 0 \<and>
   a (locals (tasks module_globals (one_row @ [Odometry_end]))) -
     c (locals (tasks module_globals (one_row @ [Odometry_end]))) = 0"
  unfolding tasks_snoc using one_row_running by (simp add: deliver_def)

subsection \<open>The race of the two tasks\<close>

lemma race_no_await: "Await t \<notin> set (fst (race cfg))"
  by (simp add: race_def split: task_state.splits)

lemma run_Inr:
  assumes "run f drone evs = Inr (acts, cfg)" and "state cfg \<noteq> Not_started"
  shows "\<exists>g. mission_loader f module_globals = Inr g \<and>
             attempt_takeoff drone = (acts, Some (Inr ())) \<and> cfg = tasks g evs"
proof -
  from assms(1) obtain g where g: "mission_loader f module_globals = Inr g"
    by (cases "mission_loader f module_globals") (simp_all add: run_def raising_def)
  obtain acts' res where at: "attempt_takeoff drone = (acts', res)"
    by (cases "attempt_takeoff drone")
  show ?thesis
  proof (cases res)
    case None
    with assms g at show ?thesis by (auto simp: run_def raising_def)
  next
    case (Some r)
    with assms g at show ?thesis
      by (cases r) (auto simp: run_def raising_def)
  qed
qed

lemma run_later:
  assumes "run f drone evs = Inr (acts, cfg)" and "state cfg \<noteq> Not_started"
    and "state cfg \<noteq> Running"
  shows "run f drone (evs @ later) = Inr (acts, cfg)"
proof -
  from run_Inr [OF assms(1,2)] obtain g where g: "mission_loader f module_globals = Inr g"
    and at: "attempt_takeoff drone = (acts, Some (Inr ()))" and cfg: "cfg = tasks g evs"
    by blast
  from assms(3) cfg have "tasks g (evs @ later) = cfg"
    by (simp add: tasks_append foldl_deliver_stopped)
  with g at show ?thesis
    by (simp add: run_def raising_def)
qed

text \<open>
  C9, as the code has it. When the recorder is the first task to finish, by returning or
  by raising, \<^verbatim>\<open>run\<close> has made exactly these calls: the two \<^verbatim>\<open>create_task\<close> calls, the
  awaited \<^verbatim>\<open>asyncio.wait\<close>, and \<^verbatim>\<open>cancel\<close> on the \<^verbatim>\<open>log_gps\<close> task; it leaves the
  \<^verbatim>\<open>with\<close> block without awaiting the cancelled task (no task is awaited in any
  configuration). No row is appended afterwards all the same, because the recorder is the
  only writer: whatever the streams deliver later, the result of \<^verbatim>\<open>run\<close>, and with it
  the log, is the same.
\<close>

theorem race_cancels_without_await:
  assumes "run f drone evs = Inr (acts, cfg)"
    and "state cfg = Returned \<or> state cfg = Raised e"
  shows "race cfg = ([Create_task Log_gps, Create_task Log_odometry, Wait_first_completed,
                      Cancel Log_gps], True) \<and>
         Await Log_gps \<notin> set (fst (race cfg)) \<and>
         (\<forall>cfg' t. Await t \<notin> set (fst (race cfg'))) \<and>
         run f drone (evs @ later) = Inr (acts, cfg) \<and>
         (\<exists>g. mission_loader f module_globals = Inr g \<and> cfg = tasks g evs \<and>
              csv (tasks g (evs @ later)) = csv cfg)"
proof -
  from assms(2) have over: "state cfg \<noteq> Not_started" "state cfg \<noteq> Running"
    by auto
  from assms(2) have "race cfg = ([Create_task Log_gps, Create_task Log_odometry,
      Wait_first_completed, Cancel Log_gps], True)"
    by (auto simp: race_def)
  moreover have "\<forall>cfg' t. Await t \<notin> set (fst (race cfg'))"
    by (simp add: race_no_await)
  moreover have "run f drone (evs @ later) = Inr (acts, cfg)"
    using assms(1) over by (rule run_later)
  moreover have "\<exists>g. mission_loader f module_globals = Inr g \<and> cfg = tasks g evs \<and>
              csv (tasks g (evs @ later)) = csv cfg"
  proof -
    from run_Inr [OF assms(1) over(1)] obtain g
      where g: "mission_loader f module_globals = Inr g" and cfg: "cfg = tasks g evs"
      by blast
    from cfg over(2) have "tasks g (evs @ later) = cfg"
      by (simp add: tasks_append foldl_deliver_stopped)
    with g cfg show ?thesis by auto
  qed
  ultimately show ?thesis
    by (simp add: race_no_await)
qed

text \<open>
  The landing of forty-one seconds: the recorder returns at count 42, \<^verbatim>\<open>log_gps\<close> is
  cancelled, and a sample of second 42 adds no row.
\<close>

lemma airborne_at_once_run: "attempt_takeoff airborne_at_once = ([Arm, StartMission], Some (Inr ()))"
  by (simp add: attempt_takeoff_def while_attempt.simps max_attempts_def try_body_def
      airborne_at_once_def)

lemma landing_run:
  "run landing_plan airborne_at_once (forty_seconds @ [Odometry (sample_at 41000000)]) =
     Inr ([Arm, StartMission], tasks loaded (forty_seconds @ [Odometry (sample_at 41000000)]))"
  by (simp add: run_def raising_def landing_plan_loaded airborne_at_once_run)

theorem race_cancels_without_await_witness:
  "race (tasks loaded (forty_seconds @ [Odometry (sample_at 41000000)])) =
     ([Create_task Log_gps, Create_task Log_odometry, Wait_first_completed, Cancel Log_gps],
      True) \<and>
   run landing_plan airborne_at_once
     ((forty_seconds @ [Odometry (sample_at 41000000)]) @ [Odometry (sample_at 42000000)]) =
     Inr ([Arm, StartMission], tasks loaded (forty_seconds @ [Odometry (sample_at 41000000)]))"
proof -
  let ?evs = "forty_seconds @ [Odometry (sample_at 41000000)]"
  from landed_returns have "state (tasks loaded ?evs) = Returned \<or>
      state (tasks loaded ?evs) = Raised TypeError"
    by simp
  note inst = race_cancels_without_await [OF landing_run this,
      of "[Odometry (sample_at 42000000)]"]
  from inst show ?thesis by simp
qed

text \<open>
  C9 as stated fails in its first part: when the recorder has returned, the calls of
  \<^verbatim>\<open>run\<close> end with the \<^verbatim>\<open>cancel\<close>, the block is left, and the cancelled \<^verbatim>\<open>log_gps\<close>
  task has not been awaited.
\<close>

theorem cancelled_not_awaited_counterexample:
  "state (tasks loaded (forty_seconds @ [Odometry (sample_at 41000000)])) = Returned \<and>
   snd (race (tasks loaded (forty_seconds @ [Odometry (sample_at 41000000)]))) = True \<and>
   last (fst (race (tasks loaded (forty_seconds @ [Odometry (sample_at 41000000)])))) =
     Cancel Log_gps \<and>
   Await Log_gps \<notin>
     set (fst (race (tasks loaded (forty_seconds @ [Odometry (sample_at 41000000)]))))"
  using landed_returns by (simp add: race_def)

subsection \<open>De-duplication by whole seconds\<close>

lemma round_half_even_bounds: "\<lfloor>x\<rfloor> \<le> round_half_even x \<and> round_half_even x \<le> \<lfloor>x\<rfloor> + 1"
  by (simp add: round_half_even_def Let_def)

lemma round_half_even_mono:
  assumes "x \<le> y"
  shows "round_half_even x \<le> round_half_even y"
proof (cases "\<lfloor>x\<rfloor> = \<lfloor>y\<rfloor>")
  case True
  with assms show ?thesis
    by (auto simp: round_half_even_def Let_def)
next
  case False
  with assms have "\<lfloor>x\<rfloor> + 1 \<le> \<lfloor>y\<rfloor>"
    using floor_mono [of x y] by linarith
  with round_half_even_bounds [of x] round_half_even_bounds [of y] show ?thesis
    by linarith
qed

lemma py_round_0: "py_round x 0 = of_int (round_half_even x)"
  by (simp add: py_round_def)

lemma py_round_0_mono: "x \<le> y \<Longrightarrow> py_round x 0 \<le> py_round y 0"
  by (simp add: py_round_0 round_half_even_mono)

lemma sim_time_s_mono: "time_usec od \<le> time_usec od' \<Longrightarrow> sim_time_s od \<le> sim_time_s od'"
  by (simp add: sim_time_s_def divide_right_mono)

lemma writerow_SimTime: "writerow g odom = Inr r \<Longrightarrow> SimTime r = py_round (sim_time_s odom) 2"
  by (auto simp: writerow_def split: option.splits)

lemma writerow_Inr_known:
  "writerow g odom = Inr r \<Longrightarrow> current_lat g \<noteq> None \<and> current_lon g \<noteq> None"
  by (auto simp: writerow_def split: option.splits)

lemma writerow_known_Inr:
  "current_lat g \<noteq> None \<Longrightarrow> current_lon g \<noteq> None \<Longrightarrow> \<exists>r. writerow g odom = Inr r"
  by (auto simp: writerow_def split: option.splits)

lemma landing_check_last_sim_time: "last_sim_time (snd (landing_check g st)) = last_sim_time st"
  by (auto simp: landing_check_def Let_def split: option.splits sum.splits)

lemma deliver_logged_ok:
  assumes "logged_ok evs cfg"
  shows "logged_ok (evs @ [ev]) (deliver cfg ev)"
proof (cases "state cfg = Running")
  case False
  with assms show ?thesis
    by (auto simp: deliver_stopped logged_ok_def split: option.splits)
next
  case True
  show ?thesis
  proof (cases ev)
    case (Position lat lon alt)
    with True assms show ?thesis
      by (auto simp: deliver_def log_gps_def logged_ok_def split: option.splits)
  next
    case (Odometry odom)
    show ?thesis
    proof (cases "same_second (locals cfg) odom")
      case same: True
      with True Odometry assms show ?thesis
        by (auto simp: deliver_def Let_def log_odometry_same_second logged_ok_def
            split: option.splits)
    next
      case diff: False
      show ?thesis
      proof (cases "writerow (shared cfg) odom")
        case (Inl e)
        with True Odometry diff show ?thesis
          by (auto simp: deliver_def Let_def log_odometry_abc_unless_checked logged_ok_def)
      next
        case (Inr r)
        with diff have lo: "log_odometry (shared cfg) (locals cfg) odom =
            (fst (landing_check (shared cfg) ((locals cfg)\<lparr>last_sim_time := Some (sim_time_s odom)\<rparr>)),
             snd (landing_check (shared cfg) ((locals cfg)\<lparr>last_sim_time := Some (sim_time_s odom)\<rparr>)), [r])"
          by (simp add: log_odometry_def Let_def)
        from True Odometry lo writerow_SimTime [OF Inr] writerow_Inr_known [OF Inr]
        show ?thesis
          by (auto simp: deliver_def Let_def logged_ok_def landing_check_last_sim_time)
      qed
    qed
  next
    case Position_end
    with True assms show ?thesis
      by (auto simp: deliver_def logged_ok_def split: option.splits)
  next
    case Odometry_end
    with True assms show ?thesis
      by (auto simp: deliver_def logged_ok_def split: option.splits)
  qed
qed

lemma tasks_logged_ok: "logged_ok evs (tasks g evs)"
proof (induction evs rule: rev_induct)
  case Nil
  show ?case by (simp add: tasks_Nil logged_ok_def recorder_start_def)
next
  case (snoc ev evs)
  then show ?case by (simp add: tasks_snoc deliver_logged_ok)
qed

lemma odometry_after_row:
  assumes "state (tasks g evs) = Running"
    and "last_sim_time (locals (tasks g evs)) = Some t"
  shows "(\<exists>prev. Odometry prev \<in> set evs \<and> t = sim_time_s prev) \<and>
         (py_round (sim_time_s odom) 0 = py_round t 0 \<longrightarrow>
            tasks g (evs @ [Odometry odom]) = tasks g evs) \<and>
         (py_round (sim_time_s odom) 0 \<noteq> py_round t 0 \<longrightarrow>
            (\<exists>r. csv (tasks g (evs @ [Odometry odom])) = csv (tasks g evs) @ [r] \<and>
                 SimTime r = py_round (sim_time_s odom) 2) \<and>
            last_sim_time (locals (tasks g (evs @ [Odometry odom]))) = Some (sim_time_s odom))"
proof -
  let ?cfg = "tasks g evs"
  from tasks_logged_ok [of evs g] assms
  have prev: "\<exists>prev. Odometry prev \<in> set evs \<and> t = sim_time_s prev"
    and known: "current_lat (shared ?cfg) \<noteq> None" "current_lon (shared ?cfg) \<noteq> None"
    by (simp_all add: logged_ok_def)
  have same: "tasks g (evs @ [Odometry odom]) = ?cfg"
    if "py_round (sim_time_s odom) 0 = py_round t 0"
  proof -
    from that assms(2) have "same_second (locals ?cfg) odom"
      by (simp add: same_second_def)
    with assms(1) show ?thesis
      by (simp add: tasks_snoc deliver_def Let_def log_odometry_same_second)
  qed
  have other: "(\<exists>r. csv (tasks g (evs @ [Odometry odom])) = csv ?cfg @ [r] \<and>
                 SimTime r = py_round (sim_time_s odom) 2) \<and>
            last_sim_time (locals (tasks g (evs @ [Odometry odom]))) = Some (sim_time_s odom)"
    if "py_round (sim_time_s odom) 0 \<noteq> py_round t 0"
  proof -
    from that assms(2) have diff: "\<not> same_second (locals ?cfg) odom"
      by (simp add: same_second_def)
    from writerow_known_Inr [OF known] obtain r where r: "writerow (shared ?cfg) odom = Inr r"
      by blast
    with diff assms(1) writerow_SimTime [OF r] show ?thesis
      by (simp add: tasks_snoc deliver_def Let_def log_odometry_def landing_check_last_sim_time)
  qed
  from prev same other show ?thesis by blast
qed

text \<open>
  C5. While the recorder runs and a sample has been accepted before, at time \<open>t\<close> (the
  time of one of the earlier odometry samples): an odometry sample whose time rounds to
  the same whole second as \<open>t\<close> changes nothing, so it writes no row and
  \<^verbatim>\<open>last_sim_time\<close> stays \<open>t\<close>; any other sample appends one row, with its time
  rounded to 2 decimals, and its time becomes \<^verbatim>\<open>last_sim_time\<close>.
\<close>

theorem duplicate_second_skipped:
  assumes "state (tasks g evs) = Running"
    and "last_sim_time (locals (tasks g evs)) = Some t"
  shows "(\<exists>prev. Odometry prev \<in> set evs \<and> t = sim_time_s prev) \<and>
         (py_round (sim_time_s odom) 0 = py_round t 0 \<longrightarrow>
            tasks g (evs @ [Odometry odom]) = tasks g evs) \<and>
         (py_round (sim_time_s odom) 0 \<noteq> py_round t 0 \<longrightarrow>
            (\<exists>r. csv (tasks g (evs @ [Odometry odom])) = csv (tasks g evs) @ [r] \<and>
                 SimTime r = py_round (sim_time_s odom) 2) \<and>
            last_sim_time (locals (tasks g (evs @ [Odometry odom]))) = Some (sim_time_s odom))"
  using assms by (rule odometry_after_row)

text \<open>
  C6, as the code has it. When an odometry sample appends a row after an earlier row,
  the whole seconds of the two samples' times differ; the later one is the greater one
  provided that the sample's time stamp is not smaller than that of any earlier odometry
  sample. The whole second meant is that of the sample's time, which the recorder
  compares; the logged \<^verbatim>\<open>SimTime\<close> is this time rounded to 2 decimals.
\<close>

theorem whole_seconds_of_rows:
  assumes "state (tasks g evs) = Running"
    and "last_sim_time (locals (tasks g evs)) = Some t"
    and "csv (tasks g (evs @ [Odometry odom])) \<noteq> csv (tasks g evs)"
  shows "SimTime (last (csv (tasks g evs))) = py_round t 2 \<and>
         (\<exists>r. csv (tasks g (evs @ [Odometry odom])) = csv (tasks g evs) @ [r] \<and>
              SimTime r = py_round (sim_time_s odom) 2) \<and>
         py_round t 0 \<noteq> py_round (sim_time_s odom) 0 \<and>
         ((\<forall>prev. Odometry prev \<in> set evs \<longrightarrow> time_usec prev \<le> time_usec odom) \<longrightarrow>
            py_round t 0 < py_round (sim_time_s odom) 0)"
proof -
  let ?cfg = "tasks g evs"
  from tasks_logged_ok [of evs g] assms(1,2)
  have last: "SimTime (last (csv ?cfg)) = py_round t 2"
    by (simp add: logged_ok_def)
  note dup = odometry_after_row [OF assms(1,2), of odom]
  from dup assms(3) have diff: "py_round t 0 \<noteq> py_round (sim_time_s odom) 0"
    by auto
  with dup have row: "\<exists>r. csv (tasks g (evs @ [Odometry odom])) = csv ?cfg @ [r] \<and>
              SimTime r = py_round (sim_time_s odom) 2"
    by auto
  have "py_round t 0 < py_round (sim_time_s odom) 0"
    if "\<forall>prev. Odometry prev \<in> set evs \<longrightarrow> time_usec prev \<le> time_usec odom"
  proof -
    from dup obtain prev where "Odometry prev \<in> set evs" "t = sim_time_s prev" by blast
    with that have "t \<le> sim_time_s odom" by (simp add: sim_time_s_mono)
    then have "py_round t 0 \<le> py_round (sim_time_s odom) 0" by (rule py_round_0_mono)
    with diff show ?thesis by simp
  qed
  with last row diff show ?thesis by blast
qed

lemma one_row_run:
  "tasks module_globals one_row =
     \<lparr>state = Running,
      shared = module_globals\<lparr>current_lat := Some 1, current_lon := Some 2, current_alt := Some 3\<rparr>,
      locals = \<lparr>a = 1, b = 0, c = 1, last_sim_time = Some 5\<rparr>,
      csv = [\<lparr>SimTime = 5, Lat = 1, Lon = 2, Alt = Some 3, qw = 1, qx = 0, qy = 0, qz = 0,
              Vx = 0, Vy = 0, Vz = 0\<rparr>]\<rparr>"
  by (simp add: one_row_def tasks_def deliver_def log_gps_def log_odometry_def same_second_def
      sample_at_def sim_time_s_def py_round_def round_half_even_def writerow_def
      landing_check_def module_globals_def recorder_start_def Let_def)

lemma sample_times:
  "sim_time_s (sample_at 5400000) = 27 / 5" "sim_time_s (sample_at 5600000) = 28 / 5"
  "py_round (27 / 5) 0 = 5" "py_round (28 / 5) 0 = 6" "py_round 5 0 = 5"
  "py_round 5 2 = 5" "py_round (28 / 5) 2 = 28 / 5"
  by (simp_all add: sample_at_def sim_time_s_def py_round_def round_half_even_def)

text \<open>
  After the row of second 5, the sample at 5.4 s is skipped and the sample at 5.6 s is
  logged.
\<close>

theorem duplicate_second_skipped_witness:
  "state (tasks module_globals one_row) = Running \<and>
   last_sim_time (locals (tasks module_globals one_row)) = Some 5 \<and>
   tasks module_globals (one_row @ [Odometry (sample_at 5400000)]) = tasks module_globals one_row \<and>
   length (csv (tasks module_globals (one_row @ [Odometry (sample_at 5600000)]))) = 2 \<and>
   last_sim_time (locals (tasks module_globals (one_row @ [Odometry (sample_at 5600000)]))) =
     Some (28 / 5)"
proof -
  have run: "state (tasks module_globals one_row) = Running"
    "last_sim_time (locals (tasks module_globals one_row)) = Some 5"
    "length (csv (tasks module_globals one_row)) = 1"
    by (simp_all add: one_row_run)
  note same = duplicate_second_skipped [OF run(1,2), of "sample_at 5400000"]
  note other = duplicate_second_skipped [OF run(1,2), of "sample_at 5600000"]
  from same have 1: "tasks module_globals (one_row @ [Odometry (sample_at 5400000)]) =
      tasks module_globals one_row"
    by (simp add: sample_times)
  from other obtain r where
    "csv (tasks module_globals (one_row @ [Odometry (sample_at 5600000)])) =
       csv (tasks module_globals one_row) @ [r]"
    and 3: "last_sim_time (locals (tasks module_globals (one_row @ [Odometry (sample_at 5600000)]))) =
       Some (28 / 5)"
    by (auto simp: sample_times)
  with run(3) have 2: "length (csv (tasks module_globals (one_row @ [Odometry (sample_at 5600000)]))) = 2"
    by simp
  from run(1,2) 1 2 3 show ?thesis by blast
qed

text \<open>The row of 5.6 s follows the row of second 5: whole second 6 after 5.\<close>

theorem whole_seconds_of_rows_witness:
  "state (tasks module_globals one_row) = Running \<and>
   last_sim_time (locals (tasks module_globals one_row)) = Some 5 \<and>
   SimTime (last (csv (tasks module_globals one_row))) = 5 \<and>
   SimTime (last (csv (tasks module_globals (one_row @ [Odometry (sample_at 5600000)])))) = 28 / 5 \<and>
   py_round 5 0 < py_round (sim_time_s (sample_at 5600000)) 0"
proof -
  have run: "state (tasks module_globals one_row) = Running"
    "last_sim_time (locals (tasks module_globals one_row)) = Some 5"
    by (simp_all add: one_row_run)
  have appended: "csv (tasks module_globals (one_row @ [Odometry (sample_at 5600000)])) \<noteq>
      csv (tasks module_globals one_row)"
    unfolding tasks_snoc using one_row_run
    by (simp add: deliver_def log_odometry_def same_second_def
      sample_at_def sim_time_s_def py_round_def round_half_even_def writerow_def
      landing_check_def module_globals_def Let_def)
  have later: "\<forall>prev. Odometry prev \<in> set one_row \<longrightarrow> time_usec prev \<le> time_usec (sample_at 5600000)"
    by (simp add: one_row_def sample_at_def)
  note inst = whole_seconds_of_rows [OF run appended]
  from inst later have "py_round 5 0 < py_round (sim_time_s (sample_at 5600000)) 0"
    by blast
  moreover from inst have "SimTime (last (csv (tasks module_globals one_row))) = 5"
    by (simp add: sample_times)
  moreover from inst
  have "SimTime (last (csv (tasks module_globals (one_row @ [Odometry (sample_at 5600000)])))) = 28 / 5"
    by (auto simp: sample_times)
  ultimately show ?thesis using run by blast
qed

text \<open>
  C6 as stated fails for a stream whose time stamps go back: the sample of second 3 is
  logged after the sample of second 5, since only equal whole seconds are skipped.
\<close>

theorem time_going_back_counterexample:
  "\<not> whole_seconds_increasing
       (csv (tasks module_globals
              [Position 1 2 3, Odometry (sample_at 5000000), Odometry (sample_at 3000000)]))"
  by (simp add: tasks_def deliver_def log_gps_def log_odometry_def same_second_def
      sample_at_def sim_time_s_def py_round_def round_half_even_def writerow_def
      landing_check_def module_globals_def recorder_start_def Let_def)

text \<open>
  Rounding the logged value again can tie where the sample times do not: 3.4999 s is
  logged as 3.5, whose whole second is 4, as for the next row's 4.2.
\<close>

lemma logged_simtime_ties:
  "map SimTime (csv (tasks module_globals
      [Position 1 2 3, Odometry (sample_at 3499900), Odometry (sample_at 4200000)])) =
     [35 / 10, 42 / 10] \<and>
   py_round (35 / 10) 0 = py_round (42 / 10) 0"
  by (simp add: tasks_def deliver_def log_gps_def log_odometry_def same_second_def
      sample_at_def sim_time_s_def py_round_def round_half_even_def writerow_def
      landing_check_def module_globals_def recorder_start_def Let_def)

end
